theory Spec2Isabelle
  imports Complex_Main "HOL-Library.Product_Lexorder"
begin

section \<open>The aggregation engine: tables\<close>

text \<open>
  The engine is the SQL migration: five tables, one trigger function bound to two
  \<^verbatim>\<open>AFTER\<close> row triggers on \<^verbatim>\<open>user_actions\<close>, the leaderboard function and the
  sync function. A table is the list of its rows; the order in which PostgreSQL would
  meet them is no part of it. A statement takes the database and the transaction's
  \<^verbatim>\<open>NOW()\<close> and returns the new database, or the error that aborts it (an aborted
  statement leaves the database as it was).

  A \<^verbatim>\<open>NUMERIC(p,s)\<close> value is its number of units of \<open>10\<^sup>-\<^sup>s\<close>: the columns of
  pounds have scale 4, so \<open>50000\<close> is \<open>5.0000\<close> lb and the tolerance \<open>0.01\<close> is \<open>100\<close>.
  Sums of such values are exact, as they are in PostgreSQL.
\<close>

type_synonym uuid = nat
type_synonym timestamptz = int
type_synonym numeric = int

datatype error =
    Numeric_value_out_of_range
  | Check_violation
  | Unique_violation
  | Foreign_key_violation
  | Invalid_row_count_in_limit_clause
  | NotFound

text \<open>\<^verbatim>\<open>NUMERIC(p,s)\<close> holds the values of absolute value below \<open>10\<^sup>p\<close> units.\<close>

definition numeric_fits :: "nat \<Rightarrow> numeric \<Rightarrow> bool" where
  "numeric_fits p x \<longleftrightarrow> \<bar>x\<bar> < 10 ^ p"

definition integer_fits :: "int \<Rightarrow> bool" where
  "integer_fits n \<longleftrightarrow> - (2 ^ 31) \<le> n \<and> n < 2 ^ 31"

definition bigint_fits :: "int \<Rightarrow> bool" where
  "bigint_fits n \<longleftrightarrow> - (2 ^ 63) \<le> n \<and> n < 2 ^ 63"

text \<open>Table \<^verbatim>\<open>users\<close>: the columns the engine reads.\<close>

record users_row =
  u_user_id :: uuid
  u_email :: string
  u_username :: "string option"

text \<open>Table \<^verbatim>\<open>user_actions\<close>; \<open>quantity\<close> is \<^verbatim>\<open>NUMERIC(12,3)\<close>, in thousandths.\<close>

record user_actions_row =
  action_id :: uuid
  ua_user_id :: uuid
  action_type :: string
  quantity :: numeric
  ua_unit :: string
  emissions_saved_lbs :: numeric
  verified :: bool
  created_at :: timestamptz
  verified_at :: "timestamptz option"

text \<open>Table \<^verbatim>\<open>user_stats\<close>, one row per user; the two JSONB columns are key-value lists.\<close>

record user_stats_row =
  us_user_id :: uuid
  total_emissions_lbs :: numeric
  action_count :: int
  monthly_lbs :: "(string \<times> numeric) list"
  yearly_lbs :: "(string \<times> numeric) list"
  us_last_updated :: timestamptz

text \<open>
  Table \<^verbatim>\<open>global_emissions\<close>: \<^verbatim>\<open>id INTEGER PRIMARY KEY CHECK (id = 1)\<close> admits one row,
  the migration inserts it and no statement deletes it, so the table is that row.
\<close>

record global_emissions_row =
  total_lbs_saved :: numeric
  total_actions :: int
  ge_last_updated :: timestamptz

text \<open>Table \<^verbatim>\<open>sync_audit_log\<close> (without its generated key \<^verbatim>\<open>log_id\<close>).\<close>

record sync_audit_log_row =
  check_timestamp :: timestamptz
  log_was_in_sync :: bool
  log_user_stats_sum :: numeric
  log_global_total :: numeric
  discrepancy :: numeric
  log_fixed :: bool
  details :: "string option"

record db =
  users :: "users_row list"
  user_actions :: "user_actions_row list"
  user_stats :: "user_stats_row list"
  global_emissions :: global_emissions_row
  sync_audit_log :: "sync_audit_log_row list"

text \<open>The database the migration leaves behind, with the given users.\<close>

definition migrated :: "users_row list \<Rightarrow> timestamptz \<Rightarrow> db" where
  "migrated us now =
     \<lparr>users = us, user_actions = [], user_stats = [],
      global_emissions = \<lparr>total_lbs_saved = 0, total_actions = 0, ge_last_updated = now\<rparr>,
      sync_audit_log = []\<rparr>"

section \<open>The trigger function and its two triggers\<close>

text \<open>
  \<^verbatim>\<open>INSERT INTO user_stats ... ON CONFLICT (user_id) DO UPDATE\<close>: the row of the user is
  updated in place when there is one, and appended otherwise. The column types and
  \<^verbatim>\<open>CHECK\<close>s of \<^verbatim>\<open>user_stats\<close> are tested on the row written, and the foreign key to
  \<^verbatim>\<open>users\<close> on a new row.
\<close>

definition user_stats_row_ok :: "user_stats_row \<Rightarrow> error + user_stats_row" where
  "user_stats_row_ok s =
     (if \<not> numeric_fits 16 (total_emissions_lbs s) \<or> \<not> integer_fits (action_count s)
      then Inl Numeric_value_out_of_range
      else if \<not> (total_emissions_lbs s \<ge> 0 \<and> action_count s \<ge> 0) then Inl Check_violation
      else Inr s)"

definition upsert_user_stats ::
  "timestamptz \<Rightarrow> user_actions_row \<Rightarrow> db \<Rightarrow> error + user_stats_row list" where
  "upsert_user_stats now NEW d =
     (case find (\<lambda>s. us_user_id s = ua_user_id NEW) (user_stats d) of
        None \<Rightarrow>
          (case user_stats_row_ok
                  \<lparr>us_user_id = ua_user_id NEW,
                   total_emissions_lbs = emissions_saved_lbs NEW,
                   action_count = 1, monthly_lbs = [], yearly_lbs = [],
                   us_last_updated = now\<rparr> of
             Inl e \<Rightarrow> Inl e
           | Inr s \<Rightarrow>
               if find (\<lambda>u. u_user_id u = ua_user_id NEW) (users d) = None
               then Inl Foreign_key_violation
               else Inr (user_stats d @ [s]))
      | Some old \<Rightarrow>
          (case user_stats_row_ok
                  (old\<lparr>total_emissions_lbs := total_emissions_lbs old + emissions_saved_lbs NEW,
                       action_count := action_count old + 1,
                       us_last_updated := now\<rparr>) of
             Inl e \<Rightarrow> Inl e
           | Inr s \<Rightarrow>
               Inr (map (\<lambda>r. if us_user_id r = ua_user_id NEW then s else r) (user_stats d))))"

text \<open>\<^verbatim>\<open>UPDATE global_emissions SET ... WHERE id = 1\<close>, with the table's types and checks.\<close>

definition global_emissions_row_ok :: "global_emissions_row \<Rightarrow> error + global_emissions_row" where
  "global_emissions_row_ok g =
     (if \<not> numeric_fits 20 (total_lbs_saved g) \<or> \<not> bigint_fits (total_actions g)
      then Inl Numeric_value_out_of_range
      else if \<not> (total_lbs_saved g \<ge> 0 \<and> total_actions g \<ge> 0) then Inl Check_violation
      else Inr g)"

text \<open>
  \<^verbatim>\<open>global_sync_trigger_function\<close>. \<open>OLD\<close> is \<open>None\<close> when the trigger fires for an
  \<^verbatim>\<open>INSERT\<close>: there PL/pgSQL's \<^verbatim>\<open>OLD\<close> is null and \<^verbatim>\<open>OLD.verified IS NULL\<close> holds (from
  PostgreSQL 11 on, which the \<^verbatim>\<open>EXECUTE FUNCTION\<close> of the triggers needs anyway). The
  function returns the database after its two writes, and the row \<^verbatim>\<open>NEW\<close> it returns.
\<close>

definition global_sync_trigger_function ::
  "timestamptz \<Rightarrow> user_actions_row option \<Rightarrow> user_actions_row \<Rightarrow> db
     \<Rightarrow> error + (db \<times> user_actions_row)" where
  "global_sync_trigger_function now OLD NEW d =
     (if verified NEW \<and> (case OLD of None \<Rightarrow> True | Some old \<Rightarrow> \<not> verified old) then
        (case upsert_user_stats now NEW d of
           Inl e \<Rightarrow> Inl e
         | Inr stats \<Rightarrow>
             (case global_emissions_row_ok
                     ((global_emissions d)
                        \<lparr>total_lbs_saved := total_lbs_saved (global_emissions d)
                                              + emissions_saved_lbs NEW,
                         total_actions := total_actions (global_emissions d) + 1,
                         ge_last_updated := now\<rparr>) of
                Inl e \<Rightarrow> Inl e
              | Inr g \<Rightarrow>
                  Inr (d\<lparr>user_stats := stats, global_emissions := g\<rparr>,
                       NEW\<lparr>verified_at := Some now\<rparr>)))
      else Inr (d, NEW))"

text \<open>
  Both triggers are \<^verbatim>\<open>AFTER ... FOR EACH ROW\<close>: they run once the row is in the table, and
  PostgreSQL ignores the row an \<^verbatim>\<open>AFTER\<close> trigger returns. So a trigger keeps the
  function's writes to the other tables and drops the returned row.
\<close>

definition global_sync_trigger ::
  "timestamptz \<Rightarrow> user_actions_row \<Rightarrow> user_actions_row \<Rightarrow> db \<Rightarrow> error + db" where
  "global_sync_trigger now OLD NEW d =
     (if verified NEW \<and> \<not> verified OLD then
        (case global_sync_trigger_function now (Some OLD) NEW d of
           Inl e \<Rightarrow> Inl e
         | Inr (d', returned) \<Rightarrow> Inr d')
      else Inr d)"

definition global_sync_insert_trigger ::
  "timestamptz \<Rightarrow> user_actions_row \<Rightarrow> db \<Rightarrow> error + db" where
  "global_sync_insert_trigger now NEW d =
     (if verified NEW then
        (case global_sync_trigger_function now None NEW d of
           Inl e \<Rightarrow> Inl e
         | Inr (d', returned) \<Rightarrow> Inr d')
      else Inr d)"

section \<open>The statements on the event table\<close>

text \<open>
  \<^verbatim>\<open>INSERT INTO user_actions\<close> of one row: the column types, the two \<^verbatim>\<open>CHECK\<close>s, the
  primary key and the foreign key, then the insert trigger.
\<close>

definition insert_user_actions :: "timestamptz \<Rightarrow> user_actions_row \<Rightarrow> db \<Rightarrow> error + db" where
  "insert_user_actions now NEW d =
     (if \<not> numeric_fits 12 (quantity NEW) \<or> \<not> numeric_fits 14 (emissions_saved_lbs NEW)
      then Inl Numeric_value_out_of_range
      else if \<not> (quantity NEW > 0 \<and> emissions_saved_lbs NEW \<ge> 0) then Inl Check_violation
      else if find (\<lambda>a. action_id a = action_id NEW) (user_actions d) \<noteq> None
      then Inl Unique_violation
      else if find (\<lambda>u. u_user_id u = ua_user_id NEW) (users d) = None
      then Inl Foreign_key_violation
      else global_sync_insert_trigger now NEW (d\<lparr>user_actions := user_actions d @ [NEW]\<rparr>))"

text \<open>
  \<open>append\<close>: a submission is an insert with the defaults of the table, \<^verbatim>\<open>verified = FALSE\<close>,
  \<^verbatim>\<open>created_at = NOW()\<close> and no \<^verbatim>\<open>verified_at\<close>.
\<close>

definition append_action ::
  "timestamptz \<Rightarrow> uuid \<Rightarrow> uuid \<Rightarrow> string \<Rightarrow> numeric \<Rightarrow> string \<Rightarrow> numeric \<Rightarrow> db \<Rightarrow> error + db" where
  "append_action now aid uid atype qty un lbs d =
     insert_user_actions now
       \<lparr>action_id = aid, ua_user_id = uid, action_type = atype, quantity = qty, ua_unit = un,
        emissions_saved_lbs = lbs, verified = False, created_at = now, verified_at = None\<rparr> d"

text \<open>
  Modelled from the spec: \<open>markVerified\<close>, the call of the verification collaborator, is
  not in the repository; only the triggers that react to it are. It fails with
  \<open>NotFound\<close> when the event does not exist, and otherwise is the statement
  \<^verbatim>\<open>UPDATE user_actions SET verified = TRUE WHERE action_id = e\<close>: the row is rewritten and
  the update trigger runs on the old and the new row.
\<close>

definition markVerified :: "timestamptz \<Rightarrow> uuid \<Rightarrow> db \<Rightarrow> error + db" where
  "markVerified now e d =
     (case find (\<lambda>a. action_id a = e) (user_actions d) of
        None \<Rightarrow> Inl NotFound
      | Some OLD \<Rightarrow>
          global_sync_trigger now OLD (OLD\<lparr>verified := True\<rparr>)
            (d\<lparr>user_actions :=
                 map (\<lambda>a. if action_id a = e then OLD\<lparr>verified := True\<rparr> else a)
                   (user_actions d)\<rparr>))"

text \<open>
  A client session: submissions and verifications, each with its transaction time. A
  call that fails is rolled back and the session goes on from the database before it.
\<close>

datatype op =
    Append timestamptz user_actions_row
  | MarkVerified timestamptz uuid

fun step :: "op \<Rightarrow> db \<Rightarrow> error + db" where
  "step (Append now NEW) d = insert_user_actions now NEW d"
| "step (MarkVerified now e) d = markVerified now e d"

fun run :: "op list \<Rightarrow> db \<Rightarrow> db" where
  "run [] d = d"
| "run (x # xs) d = run xs (case step x d of Inl e \<Rightarrow> d | Inr d' \<Rightarrow> d')"

section \<open>The reconciler\<close>

text \<open>The row \<^verbatim>\<open>sync_global_emissions_from_user_stats()\<close> returns.\<close>

record sync_result =
  was_in_sync :: bool
  user_stats_sum :: numeric
  global_total :: numeric
  fixed :: bool

definition sync_audit_log_row_ok :: "sync_audit_log_row \<Rightarrow> error + sync_audit_log_row" where
  "sync_audit_log_row_ok r =
     (if numeric_fits 20 (log_user_stats_sum r) \<and> numeric_fits 20 (log_global_total r)
         \<and> numeric_fits 20 (discrepancy r)
      then Inr r else Inl Numeric_value_out_of_range)"

text \<open>
  \<^verbatim>\<open>sync_global_emissions_from_user_stats()\<close>: \<open>sum_list\<close> of no rows is \<open>0\<close>, which is
  the \<^verbatim>\<open>COALESCE(SUM(...), 0)\<close>; \<open>100\<close> units are the \<^verbatim>\<open>0.01\<close> of the comparison.
\<close>

definition sync_global_emissions_from_user_stats ::
  "timestamptz \<Rightarrow> db \<Rightarrow> error + (db \<times> sync_result)" where
  "sync_global_emissions_from_user_stats now d =
     (let stats_sum = sum_list (map total_emissions_lbs (user_stats d));
          global_val = total_lbs_saved (global_emissions d);
          is_synced = (\<bar>stats_sum - global_val\<bar> < 100);
          result = \<lparr>was_in_sync = is_synced, user_stats_sum = stats_sum,
                    global_total = global_val, fixed = \<not> is_synced\<rparr>
      in if \<not> is_synced then
           (case global_emissions_row_ok
                   ((global_emissions d)\<lparr>total_lbs_saved := stats_sum, ge_last_updated := now\<rparr>) of
              Inl e \<Rightarrow> Inl e
            | Inr g \<Rightarrow>
                (case sync_audit_log_row_ok
                        \<lparr>check_timestamp = now, log_was_in_sync = False,
                         log_user_stats_sum = stats_sum, log_global_total = global_val,
                         discrepancy = \<bar>stats_sum - global_val\<bar>, log_fixed = True,
                         details = None\<rparr> of
                   Inl e \<Rightarrow> Inl e
                 | Inr l \<Rightarrow>
                     Inr (d\<lparr>global_emissions := g, sync_audit_log := sync_audit_log d @ [l]\<rparr>,
                          result)))
         else Inr (d, result))"

section \<open>The leaderboard function\<close>

text \<open>The rows of the common table expression \<^verbatim>\<open>ranked_users\<close>.\<close>

record ranked_users_row =
  ru_user_id :: uuid
  ru_username :: string
  ru_total_emissions_lbs :: numeric
  ru_action_count :: int
  ru_last_update_timestamp :: timestamptz
  last_verified_action_at :: timestamptz

text \<open>
  \<^verbatim>\<open>SELECT MAX(ua.verified_at) FROM user_actions ua WHERE ua.user_id = uid AND ua.verified\<close>:
  \<^verbatim>\<open>MAX\<close> skips the nulls and is null when nothing is left.
\<close>

definition max_verified_at :: "uuid \<Rightarrow> db \<Rightarrow> timestamptz option" where
  "max_verified_at uid d =
     (case List.map_filter
             (\<lambda>a. if ua_user_id a = uid \<and> verified a then verified_at a else None)
             (user_actions d) of
        [] \<Rightarrow> None
      | t # ts \<Rightarrow> Some (fold max ts t))"

definition ranked_users :: "db \<Rightarrow> ranked_users_row list" where
  "ranked_users d =
     concat (map (\<lambda>us.
        case find (\<lambda>u. u_user_id u = us_user_id us) (users d) of
          None \<Rightarrow> []
        | Some u \<Rightarrow>
            if total_emissions_lbs us > 0 then
              [\<lparr>ru_user_id = us_user_id us,
                ru_username = (case u_username u of None \<Rightarrow> u_email u | Some n \<Rightarrow> n),
                ru_total_emissions_lbs = total_emissions_lbs us,
                ru_action_count = action_count us,
                ru_last_update_timestamp = us_last_updated us,
                last_verified_action_at =
                  (case max_verified_at (us_user_id us) d of
                     None \<Rightarrow> us_last_updated us
                   | Some t \<Rightarrow> t)\<rparr>]
            else [])
       (user_stats d))"

text \<open>
  \<^verbatim>\<open>ORDER BY total_emissions_lbs DESC, last_verified_action_at DESC\<close> is the sort by the
  pair of the negated columns, compared lexicographically. SQL leaves the order of rows
  equal in both columns open: it is whatever the executor makes of it. That choice is
  the parameter \<open>scan\<close>, the position at which the executor meets the rollup of each
  user; it decides among rows equal in both columns, and only among them.
\<close>

definition order_key :: "(uuid \<Rightarrow> nat) \<Rightarrow> ranked_users_row \<Rightarrow> int \<times> int \<times> nat" where
  "order_key scan r =
     (- ru_total_emissions_lbs r, - last_verified_action_at r, scan (ru_user_id r))"

text \<open>The order as the specification words it: \<open>a\<close> may stand before \<open>b\<close>.\<close>

definition precedes :: "ranked_users_row \<Rightarrow> ranked_users_row \<Rightarrow> bool" where
  "precedes a b \<longleftrightarrow>
     ru_total_emissions_lbs a > ru_total_emissions_lbs b
     \<or> (ru_total_emissions_lbs a = ru_total_emissions_lbs b
        \<and> last_verified_action_at a \<ge> last_verified_action_at b)"

definition ordered_users :: "(uuid \<Rightarrow> nat) \<Rightarrow> db \<Rightarrow> ranked_users_row list" where
  "ordered_users scan d = sort_key (order_key scan) (ranked_users d)"

text \<open>\<^verbatim>\<open>ROUND(x, 2)\<close> on a scale-4 value: to the nearest \<open>100\<close> units, halves away from zero.\<close>

definition round2 :: "numeric \<Rightarrow> numeric" where
  "round2 x = sgn x * (((\<bar>x\<bar> + 50) div 100) * 100)"

record leaderboard_row =
  rank :: int
  lb_user_id :: uuid
  username :: string
  lb_total_emissions_lbs :: numeric
  lb_action_count :: int
  last_update_timestamp :: timestamptz

text \<open>
  \<^verbatim>\<open>get_leaderboard(limit_count)\<close>: \<^verbatim>\<open>ROW_NUMBER()\<close> numbers the ordered rows from 1, the
  outer \<^verbatim>\<open>ORDER BY\<close> is the same order, and \<^verbatim>\<open>LIMIT\<close> cuts the numbered rows; a negative
  \<^verbatim>\<open>LIMIT\<close> is an error.
\<close>

definition get_leaderboard ::
  "(uuid \<Rightarrow> nat) \<Rightarrow> int \<Rightarrow> db \<Rightarrow> error + leaderboard_row list" where
  "get_leaderboard scan limit_count d =
     (if limit_count < 0 then Inl Invalid_row_count_in_limit_clause
      else Inr (take (nat limit_count)
             (map (\<lambda>(i, r).
                     \<lparr>rank = int i, lb_user_id = ru_user_id r, username = ru_username r,
                      lb_total_emissions_lbs = round2 (ru_total_emissions_lbs r),
                      lb_action_count = ru_action_count r,
                      last_update_timestamp = ru_last_update_timestamp r\<rparr>)
                (List.enumerate 1 (ordered_users scan d)))))"

section \<open>Reading the rollups\<close>

text \<open>
  The notions the properties are stated with: the sum over the actor rollups, the rollup
  of one actor (total and count are \<open>0\<close> while it has no row), the rollups of the
  others, both kinds of rollup together, and an event by its id.
\<close>

definition actor_sum :: "db \<Rightarrow> numeric" where
  "actor_sum d = sum_list (map total_emissions_lbs (user_stats d))"

definition actor_rollup :: "db \<Rightarrow> uuid \<Rightarrow> user_stats_row option" where
  "actor_rollup d uid = find (\<lambda>s. us_user_id s = uid) (user_stats d)"

definition actor_total :: "db \<Rightarrow> uuid \<Rightarrow> numeric" where
  "actor_total d uid = (case actor_rollup d uid of None \<Rightarrow> 0 | Some s \<Rightarrow> total_emissions_lbs s)"

definition actor_count :: "db \<Rightarrow> uuid \<Rightarrow> int" where
  "actor_count d uid = (case actor_rollup d uid of None \<Rightarrow> 0 | Some s \<Rightarrow> action_count s)"

definition other_rollups :: "db \<Rightarrow> uuid \<Rightarrow> user_stats_row list" where
  "other_rollups d uid = filter (\<lambda>s. us_user_id s \<noteq> uid) (user_stats d)"

definition rollups :: "db \<Rightarrow> user_stats_row list \<times> global_emissions_row" where
  "rollups d = (user_stats d, global_emissions d)"

definition stored_event :: "db \<Rightarrow> uuid \<Rightarrow> user_actions_row option" where
  "stored_event d e = find (\<lambda>a. action_id a = e) (user_actions d)"

text \<open>
  One event of quantity \<open>q\<close> credited to actor \<open>uid\<close> between \<open>d\<close> and \<open>d'\<close>: the actor
  has a rollup, with \<open>q\<close> more in its total and one more event; the other actors'
  rollups are as they were; the global rollup has \<open>q\<close> more and one more event.
\<close>

definition credited :: "uuid \<Rightarrow> numeric \<Rightarrow> db \<Rightarrow> db \<Rightarrow> bool" where
  "credited uid q d d' \<longleftrightarrow>
     actor_rollup d' uid \<noteq> None
     \<and> actor_total d' uid = actor_total d uid + q
     \<and> actor_count d' uid = actor_count d uid + 1
     \<and> other_rollups d' uid = other_rollups d uid
     \<and> total_lbs_saved (global_emissions d') = total_lbs_saved (global_emissions d) + q
     \<and> total_actions (global_emissions d') = total_actions (global_emissions d) + 1"

text \<open>
  The constraints the tables declare: primary keys, foreign keys, column types and
  \<^verbatim>\<open>CHECK\<close>s.
\<close>

definition has_user :: "db \<Rightarrow> uuid \<Rightarrow> bool" where
  "has_user d uid \<longleftrightarrow> find (\<lambda>u. u_user_id u = uid) (users d) \<noteq> None"

definition user_actions_row_ok :: "user_actions_row \<Rightarrow> bool" where
  "user_actions_row_ok a \<longleftrightarrow>
     numeric_fits 12 (quantity a) \<and> numeric_fits 14 (emissions_saved_lbs a)
     \<and> quantity a > 0 \<and> emissions_saved_lbs a \<ge> 0"

definition constraints :: "db \<Rightarrow> bool" where
  "constraints d \<longleftrightarrow>
     distinct (map u_user_id (users d))
     \<and> distinct (map action_id (user_actions d))
     \<and> distinct (map us_user_id (user_stats d))
     \<and> list_all (\<lambda>a. user_actions_row_ok a \<and> has_user d (ua_user_id a)) (user_actions d)
     \<and> list_all (\<lambda>s. user_stats_row_ok s = Inr s \<and> has_user d (us_user_id s)) (user_stats d)
     \<and> global_emissions_row_ok (global_emissions d) = Inr (global_emissions d)
     \<and> list_all (\<lambda>l. sync_audit_log_row_ok l = Inr l) (sync_audit_log d)"

section \<open>The read adapter: the client's view of the store\<close>

text \<open>
  The read adapter is \<^verbatim>\<open>climateStats.ts\<close>. Awaiting a request either throws, or
  resolves to \<^verbatim>\<open>{data: null, error}\<close>, or to \<^verbatim>\<open>{data, error: null}\<close>. A table is the
  response a plain \<^verbatim>\<open>select\<close> of it gets; \<^verbatim>\<open>eq\<close>, \<^verbatim>\<open>order\<close>, \<^verbatim>\<open>limit\<close>, \<^verbatim>\<open>single\<close> and
  \<^verbatim>\<open>maybeSingle\<close> act on its rows. The tables of events are given newest first, the order
  their queries ask for; among rows with equal keys an \<^verbatim>\<open>order\<close> keeps the order of the
  list, which stands for the order in which the server meets the rows.

  A JavaScript number is the rational it denotes; the numbers met here are finite. The
  result of \<^verbatim>\<open>*\<close>, \<^verbatim>\<open>/\<close> and \<^verbatim>\<open>+=\<close> on them, and the value of a decimal literal, is the
  exact one rounded to a double: the rounding is a parameter of the runtime, of which
  nothing is assumed, so that what is proved holds for the rounding of IEEE 754. The
  counters (\<^verbatim>\<open>index + 1\<close>, \<^verbatim>\<open>actionCount++\<close>) are integers far below \<open>2\<^sup>5\<^sup>3\<close>, exact in a
  double; and the sign of \<^verbatim>\<open>b - a\<close> in a comparator is that of the exact difference.
\<close>

type_synonym number = rat

datatype 'a response = Throws | Error | Data 'a

fun query :: "('r list \<Rightarrow> 'a response) \<Rightarrow> 'r list response \<Rightarrow> 'a response" where
  "query f Throws = Throws"
| "query f Error = Error"
| "query f (Data rows) = f rows"

fun maybeSingle :: "'r list \<Rightarrow> 'r option response" where
  "maybeSingle [] = Data None"
| "maybeSingle [r] = Data (Some r)"
| "maybeSingle rows = Error"

fun single :: "'r list \<Rightarrow> 'r response" where
  "single [r] = Data r"
| "single rows = Error"

text \<open>\<^verbatim>\<open>x || d\<close> on a number, and on a string that may be null.\<close>

definition num_or :: "number \<Rightarrow> number \<Rightarrow> number" where
  "num_or x d = (if x = 0 then d else x)"

fun opt_or :: "number option \<Rightarrow> number \<Rightarrow> number" where
  "opt_or None d = d"
| "opt_or (Some x) d = num_or x d"

fun str_or :: "string option \<Rightarrow> string \<Rightarrow> string" where
  "str_or None d = d"
| "str_or (Some s) d = (if s = [] then d else s)"

text \<open>A truthy optional string argument, as in \<^verbatim>\<open>if (userId)\<close>.\<close>

fun truthy :: "string option \<Rightarrow> bool" where
  "truthy None = False"
| "truthy (Some s) = (s \<noteq> [])"

text \<open>
  The runtime. \<^verbatim>\<open>new Date()\<close> and the calendar: the current time as an ISO string, and
  whether a timestamp is on or after the first day of the current month, and of the
  current year. The arithmetic: the double nearest to a rational.
\<close>

record runtime =
  now_iso :: string
  since_this_month :: "string \<Rightarrow> bool"
  since_this_year :: "string \<Rightarrow> bool"
  rounded :: "rat \<Rightarrow> rat"

text \<open>A decimal literal, \<^verbatim>\<open>x * y\<close>, \<^verbatim>\<open>x / y\<close> and \<^verbatim>\<open>x + y\<close>.\<close>

definition js_num :: "runtime \<Rightarrow> rat \<Rightarrow> number" where
  "js_num rt x = rounded rt x"

definition js_mul :: "runtime \<Rightarrow> number \<Rightarrow> number \<Rightarrow> number" where
  "js_mul rt x y = rounded rt (x * y)"

definition js_div :: "runtime \<Rightarrow> number \<Rightarrow> number \<Rightarrow> number" where
  "js_div rt x y = rounded rt (x / y)"

definition js_add :: "runtime \<Rightarrow> number \<Rightarrow> number \<Rightarrow> number" where
  "js_add rt x y = rounded rt (x + y)"

subsection \<open>Rows of the three schema generations\<close>

record user_stats_summary_row =
  uss_user_id :: string
  uss_total_co2_saved_kg :: number
  uss_total_actions :: number
  uss_current_month_co2 :: number
  uss_current_year_co2 :: number
  uss_streak_days :: number
  uss_last_action_date :: "string option"
  uss_updated_at :: string
  uss_username :: "string option"

record user_statistics_row =
  ust_user_id :: string
  ust_total_co2_saved_kg :: number
  ust_total_actions_count :: number
  ust_current_month_co2_saved :: number
  ust_current_year_co2_saved :: number
  ust_streak_days :: number
  ust_last_action_date :: "string option"
  ust_updated_at :: string
  ust_username :: "string option"

text \<open>
  The legacy \<^verbatim>\<open>user_actions\<close> as this file selects it, with the \<^verbatim>\<open>emissions_saved\<close> of
  the joined \<^verbatim>\<open>action_templates\<close> row.
\<close>

record legacy_action_row =
  la_user_id :: string
  custom_emissions_saved :: "number option"
  template_emissions_saved :: "number option"
  la_logged_at :: string

record global_stats_rollup_row =
  rollup_key :: string
  gsr_total_users :: number
  gsr_total_co2_saved_kg :: number
  gsr_total_actions :: number
  computed_at :: string

record global_statistics_row =
  gs_id :: number
  gs_total_users :: number
  gs_total_co2_saved_kg :: number
  gs_total_actions_count :: number
  gs_countries_count :: number
  gs_last_updated :: string

record leaderboard_snapshots_row =
  ls_scope :: string
  ls_scope_value :: string
  ls_period :: string
  ls_user_id :: string
  ls_rank :: number
  ls_co2_saved_kg :: number
  snapshot_time :: string
  ls_username :: "string option"

record leaderboards_row =
  l_scope :: string
  l_scope_id :: string
  l_period :: string
  l_user_id :: string
  l_rank :: number
  l_co2_saved_kg :: number
  l_updated_at :: string
  l_username :: "string option"

record user_action_events_row =
  event_id :: number
  uae_user_id :: string
  uae_action_id :: number
  uae_quantity :: number
  uae_co2_saved_kg :: number
  event_timestamp :: string
  uae_action_date :: string

record user_action_logs_row =
  ual_log_id :: number
  ual_user_id :: string
  ual_action_id :: number
  ual_quantity :: number
  ual_co2_saved_kg :: number
  ual_logged_at :: string
  ual_action_date :: string
  ual_notes :: "string option"
  ual_location :: "string option"

text \<open>
  The legacy \<^verbatim>\<open>user_stats\<close> of the migration, as the client would select it. The header
  of \<^verbatim>\<open>climateStats.ts\<close> lists it with the legacy tables; no function of the file reads
  it.
\<close>

record legacy_user_stats_row =
  lus_user_id :: string
  lus_total_emissions_lbs :: number
  lus_action_count :: number
  lus_last_updated :: string

text \<open>
  What \<^verbatim>\<open>getLeaderboard\<close> of the module \<^verbatim>\<open>./leaderboard\<close> returns; the module is not in
  the sources, so the store carries its answer for each limit, \<open>None\<close> when it throws.
\<close>

record legacy_leaderboard_entry =
  lle_user_id :: string
  lle_username :: string
  lle_total_emissions_lbs :: number
  lle_last_update_timestamp :: string

record store =
  tbl_user_stats_summary :: "user_stats_summary_row list response"
  tbl_user_statistics :: "user_statistics_row list response"
  tbl_user_stats :: "legacy_user_stats_row list response"
  tbl_user_actions :: "legacy_action_row list response"
  tbl_global_stats_rollup :: "global_stats_rollup_row list response"
  tbl_global_statistics :: "global_statistics_row list response"
  tbl_global_emissions :: "number list response"
  tbl_profiles :: "string list response"
  tbl_leaderboard_snapshots :: "leaderboard_snapshots_row list response"
  tbl_leaderboards :: "leaderboards_row list response"
  tbl_user_action_events :: "user_action_events_row list response"
  tbl_user_action_logs :: "user_action_logs_row list response"
  getLeaderboard :: "nat \<Rightarrow> legacy_leaderboard_entry list option"

subsection \<open>Actor rollup\<close>

record UserStatistics =
  user_id :: string
  total_co2_saved_kg :: number
  total_actions_count :: number
  current_month_co2_saved :: number
  current_year_co2_saved :: number
  streak_days :: number
  last_action_date :: "string option"
  updated_at :: string

text \<open>The running variables of the loop in \<^verbatim>\<open>calculateUserStatisticsFromActions\<close>.\<close>

record running =
  totalCo2Kg :: number
  monthCo2Kg :: number
  yearCo2Kg :: number
  actionCount :: number
  lastActionDate :: "string option"

definition emissionsLbs :: "runtime \<Rightarrow> legacy_action_row \<Rightarrow> number" where
  "emissionsLbs rt a =
     opt_or (custom_emissions_saved a)
       (js_mul rt (opt_or (template_emissions_saved a) 0) (js_num rt (220462 / 100000)))"

definition emissionsKg :: "runtime \<Rightarrow> legacy_action_row \<Rightarrow> number" where
  "emissionsKg rt a = js_mul rt (emissionsLbs rt a) (js_num rt (453592 / 1000000))"

definition each_action :: "runtime \<Rightarrow> running \<Rightarrow> legacy_action_row \<Rightarrow> running" where
  "each_action rt t a =
     \<lparr>totalCo2Kg = js_add rt (totalCo2Kg t) (emissionsKg rt a),
      monthCo2Kg = (if since_this_month rt (la_logged_at a)
                    then js_add rt (monthCo2Kg t) (emissionsKg rt a) else monthCo2Kg t),
      yearCo2Kg = (if since_this_year rt (la_logged_at a)
                   then js_add rt (yearCo2Kg t) (emissionsKg rt a) else yearCo2Kg t),
      actionCount = actionCount t + 1,
      lastActionDate = (if \<not> truthy (lastActionDate t) then Some (la_logged_at a)
                        else lastActionDate t)\<rparr>"

definition calculateUserStatisticsFromActions ::
  "store \<Rightarrow> runtime \<Rightarrow> string \<Rightarrow> UserStatistics option" where
  "calculateUserStatisticsFromActions s rt userId =
     (case query (\<lambda>rows. Data (filter (\<lambda>a. la_user_id a = userId) rows)) (tbl_user_actions s) of
        Data actions \<Rightarrow>
          (let t = foldl (each_action rt)
                     \<lparr>totalCo2Kg = 0, monthCo2Kg = 0, yearCo2Kg = 0, actionCount = 0,
                      lastActionDate = None\<rparr> actions
           in Some \<lparr>user_id = userId, total_co2_saved_kg = totalCo2Kg t,
                    total_actions_count = actionCount t,
                    current_month_co2_saved = monthCo2Kg t,
                    current_year_co2_saved = yearCo2Kg t,
                    streak_days = 0, last_action_date = lastActionDate t,
                    updated_at = now_iso rt\<rparr>)
      | Error \<Rightarrow> None
      | Throws \<Rightarrow> None)"

definition of_user_stats_summary :: "user_stats_summary_row \<Rightarrow> UserStatistics" where
  "of_user_stats_summary prodData =
     \<lparr>user_id = uss_user_id prodData,
      total_co2_saved_kg = num_or (uss_total_co2_saved_kg prodData) 0,
      total_actions_count = num_or (uss_total_actions prodData) 0,
      current_month_co2_saved = num_or (uss_current_month_co2 prodData) 0,
      current_year_co2_saved = num_or (uss_current_year_co2 prodData) 0,
      streak_days = num_or (uss_streak_days prodData) 0,
      last_action_date = uss_last_action_date prodData,
      updated_at = uss_updated_at prodData\<rparr>"

definition of_user_statistics :: "user_statistics_row \<Rightarrow> UserStatistics" where
  "of_user_statistics prevData =
     \<lparr>user_id = ust_user_id prevData,
      total_co2_saved_kg = num_or (ust_total_co2_saved_kg prevData) 0,
      total_actions_count = num_or (ust_total_actions_count prevData) 0,
      current_month_co2_saved = num_or (ust_current_month_co2_saved prevData) 0,
      current_year_co2_saved = num_or (ust_current_year_co2_saved prevData) 0,
      streak_days = num_or (ust_streak_days prevData) 0,
      last_action_date = ust_last_action_date prevData,
      updated_at = ust_updated_at prevData\<rparr>"

text \<open>
  \<^verbatim>\<open>getUserStatistics\<close>: a request that throws lands in the \<^verbatim>\<open>catch\<close>, which computes
  from the actions as the last step of the \<^verbatim>\<open>try\<close> does.
\<close>

definition getUserStatistics :: "store \<Rightarrow> runtime \<Rightarrow> string \<Rightarrow> UserStatistics option" where
  "getUserStatistics s rt userId =
     (case query (\<lambda>rows. maybeSingle (filter (\<lambda>r. uss_user_id r = userId) rows))
             (tbl_user_stats_summary s) of
        Throws \<Rightarrow> calculateUserStatisticsFromActions s rt userId
      | Data (Some prodData) \<Rightarrow> Some (of_user_stats_summary prodData)
      | _ \<Rightarrow>
          (case query (\<lambda>rows. maybeSingle (filter (\<lambda>r. ust_user_id r = userId) rows))
                  (tbl_user_statistics s) of
             Throws \<Rightarrow> calculateUserStatisticsFromActions s rt userId
           | Data (Some prevData) \<Rightarrow> Some (of_user_statistics prevData)
           | _ \<Rightarrow> calculateUserStatisticsFromActions s rt userId))"

subsection \<open>Global rollup\<close>

record GlobalStatistics =
  g_id :: number
  total_users :: number
  g_total_co2_saved_kg :: number
  g_total_actions_count :: number
  countries_count :: number
  last_updated :: string

text \<open>A \<^verbatim>\<open>select\<close> with \<^verbatim>\<open>count: 'exact', head: true\<close>: the count, or null on an error.\<close>

fun count_of :: "'r list response \<Rightarrow> number option response" where
  "count_of Throws = Throws"
| "count_of Error = Data None"
| "count_of (Data rows) = Data (Some (of_nat (length rows)))"

text \<open>
  \<^verbatim>\<open>calculateGlobalStatisticsFromExisting\<close> reads three tables and looks at no error. The
  rows of \<^verbatim>\<open>global_emissions\<close> are their \<^verbatim>\<open>total_lbs_saved\<close>: by the \<^verbatim>\<open>CHECK\<close> of the
  table, each of them has \<^verbatim>\<open>id = 1\<close>.
\<close>

definition calculateGlobalStatisticsFromExisting ::
  "store \<Rightarrow> runtime \<Rightarrow> GlobalStatistics option" where
  "calculateGlobalStatisticsFromExisting s rt =
     (case query maybeSingle (tbl_global_emissions s) of
        Throws \<Rightarrow> None
      | globalEmissions \<Rightarrow>
          (case count_of (tbl_profiles s) of
             Throws \<Rightarrow> None
           | userCount \<Rightarrow>
               (case count_of (tbl_user_actions s) of
                  Throws \<Rightarrow> None
                | actionCount' \<Rightarrow>
                    Some \<lparr>g_id = 1,
                          total_users =
                            opt_or (case userCount of Data n \<Rightarrow> n | _ \<Rightarrow> None) 0,
                          g_total_co2_saved_kg =
                            js_mul rt
                              (opt_or (case globalEmissions of Data r \<Rightarrow> r | _ \<Rightarrow> None) 0)
                              (js_num rt (453592 / 1000000)),
                          g_total_actions_count =
                            opt_or (case actionCount' of Data n \<Rightarrow> n | _ \<Rightarrow> None) 0,
                          countries_count = 0,
                          last_updated = now_iso rt\<rparr>)))"

definition of_global_stats_rollup :: "global_stats_rollup_row \<Rightarrow> GlobalStatistics" where
  "of_global_stats_rollup rollupData =
     \<lparr>g_id = 1,
      total_users = num_or (gsr_total_users rollupData) 0,
      g_total_co2_saved_kg = num_or (gsr_total_co2_saved_kg rollupData) 0,
      g_total_actions_count = num_or (gsr_total_actions rollupData) 0,
      countries_count = 0,
      last_updated = computed_at rollupData\<rparr>"

definition of_global_statistics :: "global_statistics_row \<Rightarrow> GlobalStatistics" where
  "of_global_statistics prevData =
     \<lparr>g_id = gs_id prevData,
      total_users = num_or (gs_total_users prevData) 0,
      g_total_co2_saved_kg = num_or (gs_total_co2_saved_kg prevData) 0,
      g_total_actions_count = num_or (gs_total_actions_count prevData) 0,
      countries_count = num_or (gs_countries_count prevData) 0,
      last_updated = gs_last_updated prevData\<rparr>"

definition getGlobalStatistics :: "store \<Rightarrow> runtime \<Rightarrow> GlobalStatistics option" where
  "getGlobalStatistics s rt =
     (case query (\<lambda>rows. single (filter (\<lambda>r. rollup_key r = ''global_all_time'') rows))
             (tbl_global_stats_rollup s) of
        Throws \<Rightarrow> calculateGlobalStatisticsFromExisting s rt
      | Data rollupData \<Rightarrow> Some (of_global_stats_rollup rollupData)
      | Error \<Rightarrow>
          (case query (\<lambda>rows. single (filter (\<lambda>r. gs_id r = 1) rows))
                  (tbl_global_statistics s) of
             Throws \<Rightarrow> calculateGlobalStatisticsFromExisting s rt
           | Data prevData \<Rightarrow> Some (of_global_statistics prevData)
           | Error \<Rightarrow> calculateGlobalStatisticsFromExisting s rt))"

subsection \<open>Leaderboard\<close>

datatype period = all_time | yearly | monthly | weekly

fun period_name :: "period \<Rightarrow> string" where
  "period_name all_time = ''all_time''"
| "period_name yearly = ''yearly''"
| "period_name monthly = ''monthly''"
| "period_name weekly = ''weekly''"

datatype scope = global | country

fun scope_name :: "scope \<Rightarrow> string" where
  "scope_name global = ''global''"
| "scope_name country = ''country''"

record LeaderboardEntry =
  le_rank :: number
  le_user_id :: string
  le_username :: string
  le_co2_saved_kg :: number
  le_period :: string
  le_updated_at :: string

text \<open>
  A row of either stats table as the object \<^verbatim>\<open>stat\<close> of \<^verbatim>\<open>calculateLeaderboardFromStats\<close>:
  a column the query did not select is \<^verbatim>\<open>undefined\<close>, here \<open>None\<close>.
\<close>

record stat =
  st_user_id :: string
  st_total_co2_saved_kg :: number
  st_current_month_co2 :: "number option"
  st_current_year_co2 :: "number option"
  st_current_month_co2_saved :: "number option"
  st_current_year_co2_saved :: "number option"
  st_username :: "string option"

definition summary_stat :: "user_stats_summary_row \<Rightarrow> stat" where
  "summary_stat r =
     \<lparr>st_user_id = uss_user_id r, st_total_co2_saved_kg = uss_total_co2_saved_kg r,
      st_current_month_co2 = Some (uss_current_month_co2 r),
      st_current_year_co2 = Some (uss_current_year_co2 r),
      st_current_month_co2_saved = None, st_current_year_co2_saved = None,
      st_username = uss_username r\<rparr>"

definition statistics_stat :: "user_statistics_row \<Rightarrow> stat" where
  "statistics_stat r =
     \<lparr>st_user_id = ust_user_id r, st_total_co2_saved_kg = ust_total_co2_saved_kg r,
      st_current_month_co2 = None, st_current_year_co2 = None,
      st_current_month_co2_saved = Some (ust_current_month_co2_saved r),
      st_current_year_co2_saved = Some (ust_current_year_co2_saved r),
      st_username = ust_username r\<rparr>"

fun getCo2Value :: "runtime \<Rightarrow> period \<Rightarrow> stat \<Rightarrow> number" where
  "getCo2Value rt yearly st =
     opt_or (st_current_year_co2 st) (opt_or (st_current_year_co2_saved st) 0)"
| "getCo2Value rt monthly st =
     opt_or (st_current_month_co2 st) (opt_or (st_current_month_co2_saved st) 0)"
| "getCo2Value rt weekly st =
     js_div rt (opt_or (st_current_month_co2 st) (opt_or (st_current_month_co2_saved st) 0)) 4"
| "getCo2Value rt all_time st = num_or (st_total_co2_saved_kg st) 0"

text \<open>
  The last statement of \<^verbatim>\<open>calculateLeaderboardFromStats\<close>: \<^verbatim>\<open>map\<close> gives each row the
  rank of its index, then \<^verbatim>\<open>sort\<close> orders the entries by value, largest first. The sort
  of JavaScript is stable, as \<open>sort_key\<close> is.
\<close>

definition map_then_sort :: "runtime \<Rightarrow> period \<Rightarrow> stat list \<Rightarrow> LeaderboardEntry list" where
  "map_then_sort rt p stats =
     sort_key (\<lambda>e. - le_co2_saved_kg e)
       (map (\<lambda>(index, st).
               \<lparr>le_rank = of_nat index + 1, le_user_id = st_user_id st,
                le_username = str_or (st_username st) ''Anonymous'',
                le_co2_saved_kg = getCo2Value rt p st,
                le_period = period_name p, le_updated_at = now_iso rt\<rparr>)
          (List.enumerate 0 stats))"

text \<open>The final fallback of \<^verbatim>\<open>calculateLeaderboardFromStats\<close>, on the other module.\<close>

definition from_leaderboard_service :: "store \<Rightarrow> runtime \<Rightarrow> nat \<Rightarrow> LeaderboardEntry list" where
  "from_leaderboard_service s rt limit =
     (case getLeaderboard s limit of
        None \<Rightarrow> []
      | Some entries \<Rightarrow>
          map (\<lambda>(index, entry).
                 \<lparr>le_rank = of_nat index + 1, le_user_id = lle_user_id entry,
                  le_username = lle_username entry,
                  le_co2_saved_kg =
                    js_mul rt (lle_total_emissions_lbs entry) (js_num rt (453592 / 1000000)),
                  le_period = ''all_time'',
                  le_updated_at = lle_last_update_timestamp entry\<rparr>)
            (List.enumerate 0 entries))"

text \<open>
  \<^verbatim>\<open>calculateLeaderboardFromStats\<close>. Both queries are
  \<^verbatim>\<open>.order('total_co2_saved_kg', {ascending: false}).limit(limit)\<close>. The second one runs
  when the first gave an error or no row; the other module is asked when the last
  query run gave an error; a request that throws ends in the \<^verbatim>\<open>catch\<close>, with \<open>[]\<close>.
\<close>

definition calculateLeaderboardFromStats ::
  "store \<Rightarrow> runtime \<Rightarrow> period \<Rightarrow> nat \<Rightarrow> LeaderboardEntry list" where
  "calculateLeaderboardFromStats s rt p limit =
     (let previous =
            (case query (\<lambda>rows. Data (take limit (sort_key (\<lambda>r. - ust_total_co2_saved_kg r) rows)))
                    (tbl_user_statistics s) of
               Throws \<Rightarrow> []
             | Error \<Rightarrow> from_leaderboard_service s rt limit
             | Data stats \<Rightarrow> map_then_sort rt p (map statistics_stat stats))
      in case query (\<lambda>rows. Data (take limit (sort_key (\<lambda>r. - uss_total_co2_saved_kg r) rows)))
                (tbl_user_stats_summary s) of
           Throws \<Rightarrow> []
         | Error \<Rightarrow> previous
         | Data stats \<Rightarrow>
             if stats = [] then previous else map_then_sort rt p (map summary_stat stats))"

text \<open>
  The filters on \<^verbatim>\<open>scope_value\<close> and \<^verbatim>\<open>scope_id\<close> that \<^verbatim>\<open>getLeaderboardEntries\<close> adds
  to its two queries.
\<close>

definition scope_value_matches :: "scope \<Rightarrow> string option \<Rightarrow> string \<Rightarrow> bool" where
  "scope_value_matches sc scopeId v =
     (if sc = country \<and> truthy scopeId then Some v = scopeId
      else if sc = global then v = ''global''
      else True)"

definition scope_id_matches :: "scope \<Rightarrow> string option \<Rightarrow> string \<Rightarrow> bool" where
  "scope_id_matches sc scopeId v =
     (if sc = country \<and> truthy scopeId then Some v = scopeId else True)"

definition of_leaderboard_snapshot :: "leaderboard_snapshots_row \<Rightarrow> LeaderboardEntry" where
  "of_leaderboard_snapshot entry =
     \<lparr>le_rank = ls_rank entry, le_user_id = ls_user_id entry,
      le_username = str_or (ls_username entry) ''Anonymous'',
      le_co2_saved_kg = num_or (ls_co2_saved_kg entry) 0,
      le_period = ls_period entry, le_updated_at = snapshot_time entry\<rparr>"

definition of_leaderboards :: "leaderboards_row \<Rightarrow> LeaderboardEntry" where
  "of_leaderboards entry =
     \<lparr>le_rank = l_rank entry, le_user_id = l_user_id entry,
      le_username = str_or (l_username entry) ''Anonymous'',
      le_co2_saved_kg = num_or (l_co2_saved_kg entry) 0,
      le_period = l_period entry, le_updated_at = l_updated_at entry\<rparr>"

definition getLeaderboardEntries ::
  "store \<Rightarrow> runtime \<Rightarrow> period \<Rightarrow> scope \<Rightarrow> string option \<Rightarrow> nat \<Rightarrow> LeaderboardEntry list" where
  "getLeaderboardEntries s rt p sc scopeId limit =
     (let previous =
            (case query (\<lambda>rows. Data (take limit (sort_key l_rank
                           (filter (\<lambda>r. l_scope r = scope_name sc \<and> l_period r = period_name p
                                      \<and> scope_id_matches sc scopeId (l_scope_id r))
                              rows))))
                    (tbl_leaderboards s) of
               Data prevData \<Rightarrow>
                 if prevData \<noteq> [] then map of_leaderboards prevData
                 else calculateLeaderboardFromStats s rt p limit
             | Error \<Rightarrow> calculateLeaderboardFromStats s rt p limit
             | Throws \<Rightarrow> calculateLeaderboardFromStats s rt p limit)
      in case query (\<lambda>rows. Data (take limit (sort_key ls_rank
                       (filter (\<lambda>r. ls_scope r = scope_name sc \<and> ls_period r = period_name p
                                  \<and> scope_value_matches sc scopeId (ls_scope_value r))
                          rows))))
                (tbl_leaderboard_snapshots s) of
           Data snapshotData \<Rightarrow>
             if snapshotData \<noteq> [] then map of_leaderboard_snapshot snapshotData
             else previous
         | Error \<Rightarrow> previous
         | Throws \<Rightarrow> calculateLeaderboardFromStats s rt p limit)"

subsection \<open>Recent events\<close>

record UserActionLog =
  log_id :: number
  log_user_id :: string
  log_action_id :: number
  log_quantity :: number
  co2_saved_kg :: number
  logged_at :: string
  action_date :: string
  log_notes :: "string option"
  log_location :: "string option"

text \<open>
  Each query is \<^verbatim>\<open>.order(<time>, {ascending: false}).limit(limit)\<close>, with
  \<^verbatim>\<open>.eq('user_id', userId)\<close> when a user is given: the rows of the user, newest first, cut
  at the limit.
\<close>

definition recent :: "('r \<Rightarrow> string) \<Rightarrow> string option \<Rightarrow> nat \<Rightarrow> 'r list \<Rightarrow> 'r list" where
  "recent user_of userId limit rows =
     take limit (filter (\<lambda>r. if truthy userId then Some (user_of r) = userId else True) rows)"

text \<open>\<^verbatim>\<open>logged_at.split('T')[0]\<close>: the timestamp up to its first \<open>T\<close>.\<close>

definition date_part :: "string \<Rightarrow> string" where
  "date_part t = takeWhile (\<lambda>ch. ch \<noteq> CHR ''T'') t"

definition getRecentActionsFromOldSchema ::
  "store \<Rightarrow> runtime \<Rightarrow> string option \<Rightarrow> nat \<Rightarrow> UserActionLog list" where
  "getRecentActionsFromOldSchema s rt userId limit =
     (case query (\<lambda>rows. Data (recent la_user_id userId limit rows)) (tbl_user_actions s) of
        Data rows \<Rightarrow>
          map (\<lambda>(index, action).
                 \<lparr>log_id = of_nat index + 1, log_user_id = la_user_id action, log_action_id = 0,
                  log_quantity = 1, co2_saved_kg = emissionsKg rt action,
                  logged_at = la_logged_at action,
                  action_date = date_part (la_logged_at action),
                  log_notes = None, log_location = None\<rparr>)
            (List.enumerate 0 rows)
      | Error \<Rightarrow> []
      | Throws \<Rightarrow> [])"

definition of_user_action_event :: "user_action_events_row \<Rightarrow> UserActionLog" where
  "of_user_action_event event =
     \<lparr>log_id = event_id event, log_user_id = uae_user_id event,
      log_action_id = uae_action_id event,
      log_quantity = num_or (uae_quantity event) 1,
      co2_saved_kg = num_or (uae_co2_saved_kg event) 0,
      logged_at = event_timestamp event, action_date = uae_action_date event,
      log_notes = None, log_location = None\<rparr>"

definition of_user_action_log :: "user_action_logs_row \<Rightarrow> UserActionLog" where
  "of_user_action_log logrow =
     \<lparr>log_id = ual_log_id logrow, log_user_id = ual_user_id logrow,
      log_action_id = ual_action_id logrow,
      log_quantity = num_or (ual_quantity logrow) 1,
      co2_saved_kg = num_or (ual_co2_saved_kg logrow) 0,
      logged_at = ual_logged_at logrow, action_date = ual_action_date logrow,
      log_notes = ual_notes logrow, log_location = ual_location logrow\<rparr>"

definition getRecentActionLogs ::
  "store \<Rightarrow> runtime \<Rightarrow> string option \<Rightarrow> nat \<Rightarrow> UserActionLog list" where
  "getRecentActionLogs s rt userId limit =
     (let previous =
            (case query (\<lambda>rows. Data (recent ual_user_id userId limit rows))
                    (tbl_user_action_logs s) of
               Data logData \<Rightarrow>
                 if logData \<noteq> [] then map of_user_action_log logData
                 else getRecentActionsFromOldSchema s rt userId limit
             | Error \<Rightarrow> getRecentActionsFromOldSchema s rt userId limit
             | Throws \<Rightarrow> getRecentActionsFromOldSchema s rt userId limit)
      in case query (\<lambda>rows. Data (recent uae_user_id userId limit rows))
                (tbl_user_action_events s) of
           Data eventData \<Rightarrow>
             if eventData \<noteq> [] then map of_user_action_event eventData else previous
         | Error \<Rightarrow> previous
         | Throws \<Rightarrow> getRecentActionsFromOldSchema s rt userId limit)"

subsection \<open>The cascade over the sources\<close>

text \<open>
  The contract of the read adapter, in its own words. What one source yields to a read:
  the request throws, or it yields nothing (an error, no row, for a list no rows), or it
  yields a result. A prioritised lookup returns the first result; its fallback answers
  when no source yields, and when a request throws.
\<close>

datatype 'a yield = Thrown | Nothing | Yields 'a

fun first_yield :: "'a yield list \<Rightarrow> 'a \<Rightarrow> 'a" where
  "first_yield [] fallback = fallback"
| "first_yield (Yields x # rest) fallback = x"
| "first_yield (Nothing # rest) fallback = first_yield rest fallback"
| "first_yield (Thrown # rest) fallback = fallback"

text \<open>The lookup comes to its fallback: no source yields before one throws.\<close>

fun falls_through :: "'a yield list \<Rightarrow> bool" where
  "falls_through [] = True"
| "falls_through (Yields x # rest) = False"
| "falls_through (Nothing # rest) = falls_through rest"
| "falls_through (Thrown # rest) = True"

text \<open>A single row, and a list of rows, read from one table and converted by \<open>conv\<close>.\<close>

definition yield_row ::
  "('r \<Rightarrow> 'a) \<Rightarrow> 'r option response \<Rightarrow> 'a option yield" where
  "yield_row conv r =
     (case r of Throws \<Rightarrow> Thrown | Error \<Rightarrow> Nothing | Data None \<Rightarrow> Nothing
      | Data (Some row) \<Rightarrow> Yields (Some (conv row)))"

definition yield_rows :: "('r \<Rightarrow> 'a) \<Rightarrow> 'r list response \<Rightarrow> 'a list yield" where
  "yield_rows conv r =
     (case r of Throws \<Rightarrow> Thrown | Error \<Rightarrow> Nothing
      | Data rows \<Rightarrow> if rows = [] then Nothing else Yields (map conv rows))"

text \<open>
  The sources of the four reads. Each is a function of the tables of one generation, and
  of no other: what it yields has no field of another generation.
\<close>

paragraph \<open>Actor rollup\<close>

definition current_user_statistics ::
  "user_stats_summary_row list response \<Rightarrow> string \<Rightarrow> UserStatistics option yield" where
  "current_user_statistics tbl userId =
     yield_row of_user_stats_summary
       (query (\<lambda>rows. maybeSingle (filter (\<lambda>r. uss_user_id r = userId) rows))
          tbl)"

definition prior_user_statistics ::
  "user_statistics_row list response \<Rightarrow> string \<Rightarrow> UserStatistics option yield" where
  "prior_user_statistics tbl userId =
     yield_row of_user_statistics
       (query (\<lambda>rows. maybeSingle (filter (\<lambda>r. ust_user_id r = userId) rows))
          tbl)"

text \<open>The legacy generation has no rollup of the actor.\<close>

definition legacy_user_statistics_absent ::
  "legacy_user_stats_row list response \<Rightarrow> string \<Rightarrow> bool" where
  "legacy_user_statistics_absent tbl userId =
     (case tbl of
        Data rows \<Rightarrow> filter (\<lambda>r. lus_user_id r = userId) rows = []
      | Error \<Rightarrow> True
      | Throws \<Rightarrow> True)"

text \<open>
  The recomputation from the events: the sum over the actor's events, over those of
  this month and of this year, their number, and the time of the newest one.
\<close>

definition kg_sum :: "runtime \<Rightarrow> legacy_action_row list \<Rightarrow> number" where
  "kg_sum rt actions = foldl (\<lambda>acc a. js_add rt acc (emissionsKg rt a)) 0 actions"

definition newest_date :: "legacy_action_row list \<Rightarrow> string option" where
  "newest_date actions =
     (case find (\<lambda>a. la_logged_at a \<noteq> []) actions of
        Some a \<Rightarrow> Some (la_logged_at a)
      | None \<Rightarrow> if actions = [] then None else Some [])"

definition recomputed_user_statistics ::
  "legacy_action_row list response \<Rightarrow> runtime \<Rightarrow> string \<Rightarrow> UserStatistics option yield" where
  "recomputed_user_statistics tbl rt userId =
     (case tbl of
        Throws \<Rightarrow> Thrown
      | Error \<Rightarrow> Nothing
      | Data rows \<Rightarrow>
          (let actions = filter (\<lambda>a. la_user_id a = userId) rows
           in Yields (Some
                \<lparr>user_id = userId,
                 total_co2_saved_kg = kg_sum rt actions,
                 total_actions_count = of_nat (length actions),
                 current_month_co2_saved =
                   kg_sum rt (filter (\<lambda>a. since_this_month rt (la_logged_at a)) actions),
                 current_year_co2_saved =
                   kg_sum rt (filter (\<lambda>a. since_this_year rt (la_logged_at a)) actions),
                 streak_days = 0,
                 last_action_date = newest_date actions,
                 updated_at = now_iso rt\<rparr>)))"

paragraph \<open>Global rollup\<close>

definition current_global_statistics ::
  "global_stats_rollup_row list response \<Rightarrow> GlobalStatistics option yield" where
  "current_global_statistics tbl =
     yield_row of_global_stats_rollup
       (case query (\<lambda>rows. single (filter (\<lambda>r. rollup_key r = ''global_all_time'') rows))
               tbl of
          Throws \<Rightarrow> Throws | Error \<Rightarrow> Error | Data r \<Rightarrow> Data (Some r))"

definition prior_global_statistics ::
  "global_statistics_row list response \<Rightarrow> GlobalStatistics option yield" where
  "prior_global_statistics tbl =
     yield_row of_global_statistics
       (case query (\<lambda>rows. single (filter (\<lambda>r. gs_id r = 1) rows)) tbl of
          Throws \<Rightarrow> Throws | Error \<Rightarrow> Error | Data r \<Rightarrow> Data (Some r))"

text \<open>
  The legacy generation: the total of the one row of \<^verbatim>\<open>global_emissions\<close>, in kg, with
  the numbers of profiles and of events.
\<close>

fun counted :: "'r list response \<Rightarrow> number" where
  "counted (Data rows) = of_nat (length rows)"
| "counted Error = 0"
| "counted Throws = 0"

definition legacy_global_statistics ::
  "number list response \<Rightarrow> string list response \<Rightarrow> legacy_action_row list response \<Rightarrow>
     runtime \<Rightarrow> GlobalStatistics option yield" where
  "legacy_global_statistics emissions_tbl profiles_tbl actions_tbl rt =
     (if emissions_tbl = Throws \<or> profiles_tbl = Throws \<or> actions_tbl = Throws then Thrown
      else case emissions_tbl of
        Data [total_lbs] \<Rightarrow>
          Yields (Some
            \<lparr>g_id = 1,
             total_users = counted profiles_tbl,
             g_total_co2_saved_kg = js_mul rt total_lbs (js_num rt (453592 / 1000000)),
             g_total_actions_count = counted actions_tbl,
             countries_count = 0,
             last_updated = now_iso rt\<rparr>)
      | _ \<Rightarrow> Nothing)"

paragraph \<open>Leaderboard\<close>

definition current_leaderboard ::
  "leaderboard_snapshots_row list response \<Rightarrow> period \<Rightarrow> scope \<Rightarrow> string option \<Rightarrow> nat \<Rightarrow>
     LeaderboardEntry list yield" where
  "current_leaderboard tbl p sc scopeId limit =
     yield_rows of_leaderboard_snapshot
       (query (\<lambda>rows. Data (take limit (sort_key ls_rank
                 (filter (\<lambda>r. ls_scope r = scope_name sc \<and> ls_period r = period_name p
                            \<and> scope_value_matches sc scopeId (ls_scope_value r))
                    rows))))
          tbl)"

definition prior_leaderboard ::
  "leaderboards_row list response \<Rightarrow> period \<Rightarrow> scope \<Rightarrow> string option \<Rightarrow> nat \<Rightarrow>
     LeaderboardEntry list yield" where
  "prior_leaderboard tbl p sc scopeId limit =
     yield_rows of_leaderboards
       (query (\<lambda>rows. Data (take limit (sort_key l_rank
                 (filter (\<lambda>r. l_scope r = scope_name sc \<and> l_period r = period_name p
                            \<and> scope_id_matches sc scopeId (l_scope_id r))
                    rows))))
          tbl)"

text \<open>
  The recomputation, from the stats table of the current generation and from that of
  the prior one; and the legacy generation, the leaderboard of the other module.
\<close>

definition computed_from_summary ::
  "user_stats_summary_row list response \<Rightarrow> runtime \<Rightarrow> period \<Rightarrow> nat \<Rightarrow>
     LeaderboardEntry list yield" where
  "computed_from_summary tbl rt p limit =
     (case query (\<lambda>rows. Data (take limit (sort_key (\<lambda>r. - uss_total_co2_saved_kg r) rows)))
             tbl of
        Throws \<Rightarrow> Thrown
      | Error \<Rightarrow> Nothing
      | Data stats \<Rightarrow>
          if stats = [] then Nothing else Yields (map_then_sort rt p (map summary_stat stats)))"

definition computed_from_statistics ::
  "user_statistics_row list response \<Rightarrow> runtime \<Rightarrow> period \<Rightarrow> nat \<Rightarrow>
     LeaderboardEntry list yield" where
  "computed_from_statistics tbl rt p limit =
     (case query (\<lambda>rows. Data (take limit (sort_key (\<lambda>r. - ust_total_co2_saved_kg r) rows)))
             tbl of
        Throws \<Rightarrow> Thrown
      | Error \<Rightarrow> Nothing
      | Data stats \<Rightarrow>
          if stats = [] then Nothing
          else Yields (map_then_sort rt p (map statistics_stat stats)))"

definition legacy_leaderboard ::
  "(nat \<Rightarrow> legacy_leaderboard_entry list option) \<Rightarrow> runtime \<Rightarrow> nat \<Rightarrow>
     LeaderboardEntry list yield" where
  "legacy_leaderboard service rt limit =
     (case service limit of
        None \<Rightarrow> Thrown
      | Some entries \<Rightarrow>
          if entries = [] then Nothing
          else Yields
            (map (\<lambda>(index, entry).
                    \<lparr>le_rank = of_nat index + 1, le_user_id = lle_user_id entry,
                     le_username = lle_username entry,
                     le_co2_saved_kg =
                       js_mul rt (lle_total_emissions_lbs entry) (js_num rt (453592 / 1000000)),
                     le_period = ''all_time'',
                     le_updated_at = lle_last_update_timestamp entry\<rparr>)
               (List.enumerate 0 entries)))"

paragraph \<open>Recent events\<close>

definition current_events ::
  "user_action_events_row list response \<Rightarrow> string option \<Rightarrow> nat \<Rightarrow> UserActionLog list yield" where
  "current_events tbl userId limit =
     yield_rows of_user_action_event
       (query (\<lambda>rows. Data (recent uae_user_id userId limit rows)) tbl)"

definition prior_events ::
  "user_action_logs_row list response \<Rightarrow> string option \<Rightarrow> nat \<Rightarrow> UserActionLog list yield" where
  "prior_events tbl userId limit =
     yield_rows of_user_action_log
       (query (\<lambda>rows. Data (recent ual_user_id userId limit rows)) tbl)"

text \<open>The legacy generation: the events of the Event Store themselves.\<close>

definition legacy_events ::
  "legacy_action_row list response \<Rightarrow> runtime \<Rightarrow> string option \<Rightarrow> nat \<Rightarrow>
     UserActionLog list yield" where
  "legacy_events tbl rt userId limit =
     (case tbl of
        Throws \<Rightarrow> Thrown
      | Error \<Rightarrow> Nothing
      | Data rows \<Rightarrow>
          (let actions = recent la_user_id userId limit rows
           in if actions = [] then Nothing
              else Yields
                (map (\<lambda>(index, action).
                        \<lparr>log_id = of_nat index + 1, log_user_id = la_user_id action,
                         log_action_id = 0, log_quantity = 1,
                         co2_saved_kg = emissionsKg rt action,
                         logged_at = la_logged_at action,
                         action_date = date_part (la_logged_at action),
                         log_notes = None, log_location = None\<rparr>)
                   (List.enumerate 0 actions))))"

section \<open>The scenarios of the specification\<close>

text \<open>
  Two users, Alice with a user name and Bob without. Actor A submits \<open>5.0\<close> lb and is
  verified, actor B submits \<open>3.0\<close> lb and is verified.
\<close>

definition alice :: users_row where
  "alice = \<lparr>u_user_id = 1, u_email = ''alice@example.org'', u_username = Some ''alice''\<rparr>"

definition bob :: users_row where
  "bob = \<lparr>u_user_id = 2, u_email = ''bob@example.org'', u_username = None\<rparr>"

definition action_A :: user_actions_row where
  "action_A = \<lparr>action_id = 1, ua_user_id = 1, action_type = ''bike'', quantity = 1000,
               ua_unit = ''trip'', emissions_saved_lbs = 50000, verified = False,
               created_at = 1, verified_at = None\<rparr>"

definition action_B :: user_actions_row where
  "action_B = \<lparr>action_id = 2, ua_user_id = 2, action_type = ''bus'', quantity = 2000,
               ua_unit = ''trip'', emissions_saved_lbs = 30000, verified = False,
               created_at = 3, verified_at = None\<rparr>"

definition session :: "op list" where
  "session = [Append 1 action_A, MarkVerified 2 1, Append 3 action_B, MarkVerified 4 2]"

definition stats_A :: user_stats_row where
  "stats_A = \<lparr>us_user_id = 1, total_emissions_lbs = 50000, action_count = 1,
              monthly_lbs = [], yearly_lbs = [], us_last_updated = 2\<rparr>"

definition stats_B :: user_stats_row where
  "stats_B = \<lparr>us_user_id = 2, total_emissions_lbs = 30000, action_count = 1,
              monthly_lbs = [], yearly_lbs = [], us_last_updated = 4\<rparr>"

definition after_A :: db where
  "after_A =
     \<lparr>users = [alice, bob], user_actions = [action_A\<lparr>verified := True\<rparr>],
      user_stats = [stats_A],
      global_emissions = \<lparr>total_lbs_saved = 50000, total_actions = 1, ge_last_updated = 2\<rparr>,
      sync_audit_log = []\<rparr>"

definition after_session :: db where
  "after_session =
     \<lparr>users = [alice, bob],
      user_actions = [action_A\<lparr>verified := True\<rparr>, action_B\<lparr>verified := True\<rparr>],
      user_stats = [stats_A, stats_B],
      global_emissions = \<lparr>total_lbs_saved = 80000, total_actions = 2, ge_last_updated = 4\<rparr>,
      sync_audit_log = []\<rparr>"

text \<open>The global total corrupted to \<open>100.0\<close> lb, and the database after the repair at time 5.\<close>

definition corrupted :: db where
  "corrupted =
     after_session\<lparr>global_emissions :=
       \<lparr>total_lbs_saved = 1000000, total_actions = 2, ge_last_updated = 4\<rparr>\<rparr>"

definition repaired :: db where
  "repaired =
     after_session\<lparr>global_emissions :=
         \<lparr>total_lbs_saved = 80000, total_actions = 2, ge_last_updated = 5\<rparr>,
       sync_audit_log :=
         [\<lparr>check_timestamp = 5, log_was_in_sync = False, log_user_stats_sum = 80000,
           log_global_total = 1000000, discrepancy = 920000, log_fixed = True,
           details = None\<rparr>]\<rparr>"

text \<open>A tie: both actors at \<open>10.0\<close> lb, A verified at time 2 and B at time 4.\<close>

definition tied_session :: "op list" where
  "tied_session =
     [Append 1 (action_A\<lparr>emissions_saved_lbs := 100000\<rparr>), MarkVerified 2 1,
      Append 3 (action_B\<lparr>emissions_saved_lbs := 100000\<rparr>), MarkVerified 4 2]"

text \<open>
  A has been credited her first event and has submitted a second one of \<open>2.0\<close> lb; and
  the database after its verification at time 6.
\<close>

definition action_A2 :: user_actions_row where
  "action_A2 = \<lparr>action_id = 3, ua_user_id = 1, action_type = ''bike'', quantity = 1000,
                ua_unit = ''trip'', emissions_saved_lbs = 20000, verified = False,
                created_at = 5, verified_at = None\<rparr>"

definition second_submitted :: db where
  "second_submitted = after_A\<lparr>user_actions := [action_A\<lparr>verified := True\<rparr>, action_A2]\<rparr>"

definition after_A2 :: db where
  "after_A2 =
     \<lparr>users = [alice, bob],
      user_actions = [action_A\<lparr>verified := True\<rparr>, action_A2\<lparr>verified := True\<rparr>],
      user_stats = [stats_A\<lparr>total_emissions_lbs := 70000, action_count := 2,
                            us_last_updated := 6\<rparr>],
      global_emissions = \<lparr>total_lbs_saved = 70000, total_actions = 2, ge_last_updated = 6\<rparr>,
      sync_audit_log = []\<rparr>"

text \<open>
  The global total fallen behind to \<open>3.0\<close> lb, and the database after the repair at
  time 5.
\<close>

definition undercounted :: db where
  "undercounted =
     after_session\<lparr>global_emissions :=
       \<lparr>total_lbs_saved = 30000, total_actions = 2, ge_last_updated = 4\<rparr>\<rparr>"

definition caught_up :: db where
  "caught_up =
     after_session\<lparr>global_emissions :=
         \<lparr>total_lbs_saved = 80000, total_actions = 2, ge_last_updated = 5\<rparr>,
       sync_audit_log :=
         [\<lparr>check_timestamp = 5, log_was_in_sync = False, log_user_stats_sum = 80000,
           log_global_total = 30000, discrepancy = 50000, log_fixed = True,
           details = None\<rparr>]\<rparr>"

text \<open>
  Ten thousand and one users, each with a rollup at the largest total its column holds,
  \<open>999999999999.9999\<close> lb, and a global total of \<open>0\<close>: every declared constraint holds,
  and the sum of the rollups is more than the column of the global total holds.
\<close>

definition crowd :: "users_row list" where
  "crowd = map (\<lambda>i. \<lparr>u_user_id = i, u_email = replicate (Suc i) (CHR ''u''),
                       u_username = None\<rparr>) [0..<10001]"

definition crowded :: db where
  "crowded =
     \<lparr>users = crowd, user_actions = [],
      user_stats = map (\<lambda>i. \<lparr>us_user_id = i, total_emissions_lbs = 10 ^ 16 - 1,
                                action_count = 1, monthly_lbs = [], yearly_lbs = [],
                                us_last_updated = 0\<rparr>) [0..<10001],
      global_emissions = \<lparr>total_lbs_saved = 0, total_actions = 0, ge_last_updated = 0\<rparr>,
      sync_audit_log = []\<rparr>"

text \<open>
  The client's store with every table empty, then with two actors in the current stats
  table (A: \<open>10\<close> kg in all and \<open>1\<close> this month; B: \<open>5\<close> in all and \<open>3\<close> this month),
  with an actor who saved nothing this month, and with a legacy leaderboard beside the
  two actors.
\<close>

definition no_rows :: store where
  "no_rows =
     \<lparr>tbl_user_stats_summary = Data [], tbl_user_statistics = Data [],
      tbl_user_stats = Data [],
      tbl_user_actions = Data [], tbl_global_stats_rollup = Data [],
      tbl_global_statistics = Data [], tbl_global_emissions = Data [],
      tbl_profiles = Data [], tbl_leaderboard_snapshots = Data [],
      tbl_leaderboards = Data [], tbl_user_action_events = Data [],
      tbl_user_action_logs = Data [], getLeaderboard = (\<lambda>limit. Some [])\<rparr>"

definition summary_of :: "string \<Rightarrow> number \<Rightarrow> number \<Rightarrow> user_stats_summary_row" where
  "summary_of u all_kg month_kg =
     \<lparr>uss_user_id = u, uss_total_co2_saved_kg = all_kg, uss_total_actions = 1,
      uss_current_month_co2 = month_kg, uss_current_year_co2 = all_kg, uss_streak_days = 0,
      uss_last_action_date = None, uss_updated_at = ''2025-11-15T08:00:00.000Z'',
      uss_username = Some u\<rparr>"

definition two_actors :: store where
  "two_actors =
     no_rows\<lparr>tbl_user_stats_summary := Data [summary_of ''A'' 10 1, summary_of ''B'' 5 3]\<rparr>"

definition idle_actor :: store where
  "idle_actor = no_rows\<lparr>tbl_user_stats_summary := Data [summary_of ''A'' 10 0]\<rparr>"

definition legacy_L :: legacy_leaderboard_entry where
  "legacy_L = \<lparr>lle_user_id = ''L'', lle_username = ''L'', lle_total_emissions_lbs = 20,
               lle_last_update_timestamp = ''2025-11-14T08:00:00.000Z''\<rparr>"

definition with_legacy :: store where
  "with_legacy = two_actors\<lparr>getLeaderboard := (\<lambda>limit. Some [legacy_L])\<rparr>"

text \<open>The same legacy leaderboard, when neither stats table can be read.\<close>

definition unreadable_stats :: store where
  "unreadable_stats =
     no_rows\<lparr>tbl_user_stats_summary := Error, tbl_user_statistics := Error,
             getLeaderboard := (\<lambda>limit. Some [legacy_L])\<rparr>"

text \<open>
  A store where A has a row in the current and in the prior stats table, with different
  totals, B a row in the prior table only, and C no rollup of any generation and one
  event of \<open>5\<close> lb.
\<close>

definition statistics_of :: "string \<Rightarrow> number \<Rightarrow> user_statistics_row" where
  "statistics_of u all_kg =
     \<lparr>ust_user_id = u, ust_total_co2_saved_kg = all_kg, ust_total_actions_count = 2,
      ust_current_month_co2_saved = all_kg, ust_current_year_co2_saved = all_kg,
      ust_streak_days = 0, ust_last_action_date = None,
      ust_updated_at = ''2025-10-01T08:00:00.000Z'', ust_username = Some u\<rparr>"

definition event_of_C :: legacy_action_row where
  "event_of_C = \<lparr>la_user_id = ''C'', custom_emissions_saved = Some 5,
                 template_emissions_saved = None,
                 la_logged_at = ''2025-11-10T09:00:00.000Z''\<rparr>"

definition generations :: store where
  "generations =
     no_rows\<lparr>tbl_user_stats_summary := Data [summary_of ''A'' 10 1],
             tbl_user_statistics := Data [statistics_of ''A'' 7, statistics_of ''B'' 4],
             tbl_user_actions := Data [event_of_C]\<rparr>"

text \<open>
  A store with the legacy tables only: a global total of \<open>100\<close> lb, two profiles and
  the event of C; and one where the prior generation has a log of that event as well.
\<close>

definition legacy_only :: store where
  "legacy_only =
     no_rows\<lparr>tbl_global_emissions := Data [100], tbl_profiles := Data [''A'', ''C''],
             tbl_user_actions := Data [event_of_C]\<rparr>"

definition log_of_C :: user_action_logs_row where
  "log_of_C = \<lparr>ual_log_id = 7, ual_user_id = ''C'', ual_action_id = 3, ual_quantity = 1,
               ual_co2_saved_kg = 2, ual_logged_at = ''2025-11-10T09:00:00.000Z'',
               ual_action_date = ''2025-11-10'', ual_notes = None, ual_location = None\<rparr>"

definition logged :: store where
  "logged = legacy_only\<lparr>tbl_user_action_logs := Data [log_of_C]\<rparr>"


section \<open>Properties of the engine\<close>

subsection \<open>Tables as keyed lists\<close>

lemma find_snoc_None:
  "find P xs = None \<Longrightarrow> find P (xs @ [y]) = (if P y then Some y else None)"
  by (induction xs) (auto split: if_splits)

lemma find_replace:
  "find (\<lambda>r. k r = u) xs = Some old \<Longrightarrow> k new = u
   \<Longrightarrow> find (\<lambda>r. k r = u) (map (\<lambda>r. if k r = u then new else r) xs) = Some new"
  by (induction xs) (auto split: if_splits)

lemma filter_replace:
  "k new = u \<Longrightarrow> filter (\<lambda>r. k r \<noteq> u) (map (\<lambda>r. if k r = u then new else r) xs)
     = filter (\<lambda>r. k r \<noteq> u) xs"
  by (induction xs) auto

lemma find_None_filter:
  "find (\<lambda>r. k r = u) xs = None \<Longrightarrow> filter (\<lambda>r. k r \<noteq> u) xs = xs"
  by (induction xs) (auto split: if_splits)

lemma find_key: "find (\<lambda>r. k r = u) xs = Some old \<Longrightarrow> k old = u"
  by (induction xs) (auto split: if_splits)

lemma replace_same:
  assumes "distinct (map k xs)" and "x \<in> set xs"
  shows "map (\<lambda>a. if k a = k x then x else a) xs = xs"
proof (rule map_idI)
  fix a
  assume "a \<in> set xs"
  moreover have "inj_on k (set xs)"
    using assms(1) by (simp add: distinct_map)
  ultimately show "(if k a = k x then x else a) = a"
    using assms(2) by (auto dest: inj_onD)
qed

lemma sum_list_split_key:
  fixes f :: "'a \<Rightarrow> int"
  shows "distinct (map k xs) \<Longrightarrow>
     sum_list (map f xs) =
       (case find (\<lambda>r. k r = u) xs of None \<Rightarrow> 0 | Some r \<Rightarrow> f r)
       + sum_list (map f (filter (\<lambda>r. k r \<noteq> u) xs))"
proof (induction xs)
  case Nil
  then show ?case by simp
next
  case (Cons x xs)
  show ?case
  proof (cases "k x = u")
    case True
    then have "u \<notin> set (map k xs)" using Cons.prems by auto
    then have "filter (\<lambda>r. k r \<noteq> u) xs = xs"
      by (induction xs) auto
    with True show ?thesis by simp
  next
    case False
    with Cons show ?thesis by simp
  qed
qed

subsection \<open>The trigger function credits one event\<close>

lemma upsert_absent:
  assumes "find (\<lambda>s. us_user_id s = ua_user_id NEW) (user_stats d) = None"
    and "upsert_user_stats now NEW d = Inr stats"
  shows "stats = user_stats d @
           [\<lparr>us_user_id = ua_user_id NEW, total_emissions_lbs = emissions_saved_lbs NEW,
             action_count = 1, monthly_lbs = [], yearly_lbs = [], us_last_updated = now\<rparr>]"
  using assms
  by (auto simp add: upsert_user_stats_def user_stats_row_ok_def split: if_splits)

lemma upsert_present:
  assumes "find (\<lambda>s. us_user_id s = ua_user_id NEW) (user_stats d) = Some old"
    and "upsert_user_stats now NEW d = Inr stats"
  shows "stats = map (\<lambda>r. if us_user_id r = ua_user_id NEW
                         then old\<lparr>total_emissions_lbs :=
                                    total_emissions_lbs old + emissions_saved_lbs NEW,
                                  action_count := action_count old + 1,
                                  us_last_updated := now\<rparr>
                         else r) (user_stats d)"
  using assms
  by (auto simp add: upsert_user_stats_def user_stats_row_ok_def split: if_splits)

lemma upsert_credits:
  assumes "upsert_user_stats now NEW d = Inr stats"
  shows "actor_rollup (d\<lparr>user_stats := stats\<rparr>) (ua_user_id NEW) \<noteq> None
     \<and> actor_total (d\<lparr>user_stats := stats\<rparr>) (ua_user_id NEW)
         = actor_total d (ua_user_id NEW) + emissions_saved_lbs NEW
     \<and> actor_count (d\<lparr>user_stats := stats\<rparr>) (ua_user_id NEW)
         = actor_count d (ua_user_id NEW) + 1
     \<and> other_rollups (d\<lparr>user_stats := stats\<rparr>) (ua_user_id NEW)
         = other_rollups d (ua_user_id NEW)"
proof (cases "find (\<lambda>s. us_user_id s = ua_user_id NEW) (user_stats d)")
  case None
  note st = upsert_absent [OF None assms]
  show ?thesis
    unfolding st actor_rollup_def actor_total_def actor_count_def other_rollups_def
    using None by (simp add: find_snoc_None)
next
  case (Some old)
  note st = upsert_present [OF Some assms]
  have key: "us_user_id old = ua_user_id NEW"
    using Some by (rule find_key)
  let ?new = "old\<lparr>total_emissions_lbs := total_emissions_lbs old + emissions_saved_lbs NEW,
                   action_count := action_count old + 1, us_last_updated := now\<rparr>"
  have k: "us_user_id ?new = ua_user_id NEW" using key by simp
  have f: "find (\<lambda>r. us_user_id r = ua_user_id NEW)
             (map (\<lambda>r. if us_user_id r = ua_user_id NEW then ?new else r) (user_stats d))
           = Some ?new"
    using find_replace [where k = us_user_id, OF Some k] .
  have g: "filter (\<lambda>r. us_user_id r \<noteq> ua_user_id NEW)
             (map (\<lambda>r. if us_user_id r = ua_user_id NEW then ?new else r) (user_stats d))
           = filter (\<lambda>r. us_user_id r \<noteq> ua_user_id NEW) (user_stats d)"
    using filter_replace [where k = us_user_id, OF k] .
  show ?thesis
    unfolding st actor_rollup_def actor_total_def actor_count_def other_rollups_def
    using Some f g by simp
qed

lemma trigger_function_credits:
  assumes "verified NEW" "case OLD of None \<Rightarrow> True | Some old \<Rightarrow> \<not> verified old"
    and "global_sync_trigger_function now OLD NEW d = Inr (d', returned)"
  shows "credited (ua_user_id NEW) (emissions_saved_lbs NEW) d d'"
proof -
  from assms obtain stats where
    up: "upsert_user_stats now NEW d = Inr stats" and
    d': "d' = d\<lparr>user_stats := stats,
                 global_emissions := (global_emissions d)
                   \<lparr>total_lbs_saved := total_lbs_saved (global_emissions d) + emissions_saved_lbs NEW,
                    total_actions := total_actions (global_emissions d) + 1,
                    ge_last_updated := now\<rparr>\<rparr>"
    by (auto simp add: global_sync_trigger_function_def global_emissions_row_ok_def
        split: if_splits sum.splits)
  have same: "actor_rollup d' = actor_rollup (d\<lparr>user_stats := stats\<rparr>)"
    "actor_total d' = actor_total (d\<lparr>user_stats := stats\<rparr>)"
    "actor_count d' = actor_count (d\<lparr>user_stats := stats\<rparr>)"
    "other_rollups d' = other_rollups (d\<lparr>user_stats := stats\<rparr>)"
    unfolding d' by (simp_all add: actor_rollup_def actor_total_def actor_count_def other_rollups_def fun_eq_iff)
  show ?thesis
    unfolding credited_def same using upsert_credits [OF up] by (simp add: d')
qed

lemma trigger_function_frame:
  assumes "global_sync_trigger_function now OLD NEW d = Inr (d', returned)"
  shows "user_actions d' = user_actions d \<and> users d' = users d
         \<and> sync_audit_log d' = sync_audit_log d"
  using assms
  by (auto simp add: global_sync_trigger_function_def split: if_splits sum.splits)

subsection \<open>Submission and verification\<close>

lemma markVerified_rows:
  assumes "stored_event d e = Some ev" and "markVerified now e d = Inr d'"
  shows "user_actions d' =
           map (\<lambda>a. if action_id a = e then ev\<lparr>verified := True\<rparr> else a) (user_actions d)"
  using assms
  by (auto simp add: markVerified_def stored_event_def global_sync_trigger_def
      split: if_splits sum.splits dest: trigger_function_frame)

lemma markVerified_event:
  assumes "stored_event d e = Some ev" and "markVerified now e d = Inr d'"
  shows "stored_event d' e = Some (ev\<lparr>verified := True\<rparr>)"
proof -
  have k: "action_id ev = e"
    using assms(1) unfolding stored_event_def by (rule find_key)
  then have k': "action_id (ev\<lparr>verified := True\<rparr>) = e" by simp
  show ?thesis
    unfolding stored_event_def markVerified_rows [OF assms]
    using find_replace [where k = action_id, OF assms(1) [unfolded stored_event_def] k'] .
qed

lemma markVerified_fires:
  assumes "stored_event d e = Some ev" and "\<not> verified ev" and "markVerified now e d = Inr d'"
  shows "credited (ua_user_id ev) (emissions_saved_lbs ev) d d'"
proof -
  let ?d1 = "d\<lparr>user_actions :=
                 map (\<lambda>a. if action_id a = e then ev\<lparr>verified := True\<rparr> else a) (user_actions d)\<rparr>"
  from assms obtain returned where
    "global_sync_trigger_function now (Some ev) (ev\<lparr>verified := True\<rparr>) ?d1 = Inr (d', returned)"
    by (auto simp add: markVerified_def stored_event_def global_sync_trigger_def split: sum.splits)
  then have "credited (ua_user_id (ev\<lparr>verified := True\<rparr>))
               (emissions_saved_lbs (ev\<lparr>verified := True\<rparr>)) ?d1 d'"
    using assms(2) by (intro trigger_function_credits [where OLD = "Some ev"]) simp_all
  then show ?thesis
    by (simp add: credited_def actor_rollup_def actor_total_def actor_count_def other_rollups_def)
qed

lemma markVerified_verified:
  assumes "stored_event d e = Some ev" and "verified ev"
  shows "markVerified now e d =
           Inr (d\<lparr>user_actions :=
                   map (\<lambda>a. if action_id a = e then ev\<lparr>verified := True\<rparr> else a) (user_actions d)\<rparr>)"
  using assms by (simp add: markVerified_def stored_event_def global_sync_trigger_def)

lemma markVerified_again:
  assumes "stored_event d e = Some ev" and "verified ev"
  shows "\<exists>d'. markVerified now e d = Inr d' \<and> rollups d' = rollups d"
  using markVerified_verified [OF assms] by (simp add: rollups_def)

lemma insert_effect:
  assumes "insert_user_actions now NEW d = Inr d'"
  shows "if verified NEW then credited (ua_user_id NEW) (emissions_saved_lbs NEW) d d'
         else rollups d' = rollups d"
proof -
  let ?d1 = "d\<lparr>user_actions := user_actions d @ [NEW]\<rparr>"
  from assms have trig: "global_sync_insert_trigger now NEW ?d1 = Inr d'"
    by (auto simp add: insert_user_actions_def split: if_splits)
  show ?thesis
  proof (cases "verified NEW")
    case False
    then show ?thesis using trig by (auto simp add: global_sync_insert_trigger_def rollups_def)
  next
    case True
    then obtain returned where
      "global_sync_trigger_function now None NEW ?d1 = Inr (d', returned)"
      using trig by (auto simp add: global_sync_insert_trigger_def split: sum.splits)
    then have "credited (ua_user_id NEW) (emissions_saved_lbs NEW) ?d1 d'"
      using True by (intro trigger_function_credits [where OLD = None]) simp_all
    then show ?thesis
      using True
      by (simp add: credited_def actor_rollup_def actor_total_def actor_count_def other_rollups_def)
  qed
qed

lemma insert_event:
  assumes "insert_user_actions now NEW d = Inr d'"
  shows "stored_event d' (action_id NEW) = Some NEW"
proof -
  let ?d1 = "d\<lparr>user_actions := user_actions d @ [NEW]\<rparr>"
  from assms have
    fresh: "find (\<lambda>a. action_id a = action_id NEW) (user_actions d) = None" and
    trig: "global_sync_insert_trigger now NEW ?d1 = Inr d'"
    by (auto simp add: insert_user_actions_def split: if_splits)
  have "user_actions d' = user_actions ?d1"
    using trig
    by (auto simp add: global_sync_insert_trigger_def split: if_splits sum.splits
        dest: trigger_function_frame)
  then show ?thesis
    using find_snoc_None [OF fresh, of NEW] by (simp add: stored_event_def)
qed

subsection \<open>The declared constraints hold in every database a session reaches\<close>

lemma upsert_constraints:
  assumes "upsert_user_stats now NEW d = Inr stats"
    and "distinct (map us_user_id (user_stats d))"
    and "list_all (\<lambda>s. user_stats_row_ok s = Inr s \<and> has_user d (us_user_id s)) (user_stats d)"
  shows "distinct (map us_user_id stats)
         \<and> list_all (\<lambda>s. user_stats_row_ok s = Inr s \<and> has_user d (us_user_id s)) stats"
proof (cases "find (\<lambda>s. us_user_id s = ua_user_id NEW) (user_stats d)")
  case None
  note st = upsert_absent [OF None assms(1)]
  have notin: "ua_user_id NEW \<notin> set (map us_user_id (user_stats d))"
    using None by (auto simp add: find_None_iff)
  have ok: "user_stats_row_ok
              \<lparr>us_user_id = ua_user_id NEW, total_emissions_lbs = emissions_saved_lbs NEW,
               action_count = 1, monthly_lbs = [], yearly_lbs = [], us_last_updated = now\<rparr>
            = Inr \<lparr>us_user_id = ua_user_id NEW, total_emissions_lbs = emissions_saved_lbs NEW,
               action_count = 1, monthly_lbs = [], yearly_lbs = [], us_last_updated = now\<rparr>"
    and usr: "has_user d (ua_user_id NEW)"
    using assms(1) None
    by (auto simp add: upsert_user_stats_def has_user_def split: sum.splits if_splits
        simp add: user_stats_row_ok_def)
  show ?thesis
    unfolding st using assms(2,3) notin ok usr by simp
next
  case (Some old)
  note st = upsert_present [OF Some assms(1)]
  have key: "us_user_id old = ua_user_id NEW"
    using Some by (rule find_key)
  have mem: "old \<in> set (user_stats d)"
    using Some by (auto simp add: find_Some_iff)
  let ?new = "old\<lparr>total_emissions_lbs := total_emissions_lbs old + emissions_saved_lbs NEW,
                   action_count := action_count old + 1, us_last_updated := now\<rparr>"
  have ok: "user_stats_row_ok ?new = Inr ?new"
    using assms(1) Some
    by (auto simp add: upsert_user_stats_def split: sum.splits if_splits
        simp add: user_stats_row_ok_def)
  have usr: "has_user d (us_user_id ?new)"
    using assms(3) mem by (auto simp add: list_all_iff)
  have keys: "map us_user_id (map (\<lambda>r. if us_user_id r = ua_user_id NEW then ?new else r)
                (user_stats d)) = map us_user_id (user_stats d)"
    using key by (induction "user_stats d") (auto simp add: comp_def)
  have "distinct (map us_user_id stats)"
    unfolding st keys using assms(2) .
  moreover have "list_all (\<lambda>s. user_stats_row_ok s = Inr s \<and> has_user d (us_user_id s)) stats"
    unfolding st using assms(3) ok usr by (auto simp add: list_all_iff)
  ultimately show ?thesis by simp
qed

lemma global_row_ok_Inr:
  "global_emissions_row_ok x = Inr g \<Longrightarrow> g = x \<and> global_emissions_row_ok g = Inr g"
  by (auto simp add: global_emissions_row_ok_def split: if_splits)

lemma trigger_function_constraints:
  assumes "constraints d"
    and "global_sync_trigger_function now OLD NEW d = Inr (d', returned)"
  shows "constraints d'"
proof (cases "verified NEW \<and> (case OLD of None \<Rightarrow> True | Some old \<Rightarrow> \<not> verified old)")
  case False
  then have "d' = d"
    using assms(2) by (auto simp add: global_sync_trigger_function_def)
  then show ?thesis using assms(1) by simp
next
  case True
  with assms(2) obtain stats g where
    up: "upsert_user_stats now NEW d = Inr stats" and
    g: "global_emissions_row_ok g = Inr g" and
    d': "d' = d\<lparr>user_stats := stats, global_emissions := g\<rparr>"
    by (auto simp add: global_sync_trigger_function_def split: sum.splits
        dest: global_row_ok_Inr)
  have "distinct (map us_user_id stats)
        \<and> list_all (\<lambda>s. user_stats_row_ok s = Inr s \<and> has_user d (us_user_id s)) stats"
    using assms(1) by (intro upsert_constraints [OF up]) (simp_all add: constraints_def)
  then show ?thesis
    using assms(1) g unfolding d' by (simp add: constraints_def has_user_def)
qed

lemma insert_constraints:
  assumes "constraints d" and "insert_user_actions now NEW d = Inr d'"
  shows "constraints d'"
proof -
  let ?d1 = "d\<lparr>user_actions := user_actions d @ [NEW]\<rparr>"
  from assms(2) have
    ok: "user_actions_row_ok NEW" and
    fresh: "find (\<lambda>a. action_id a = action_id NEW) (user_actions d) = None" and
    usr: "has_user d (ua_user_id NEW)" and
    trig: "global_sync_insert_trigger now NEW ?d1 = Inr d'"
    by (auto simp add: insert_user_actions_def user_actions_row_ok_def has_user_def
        split: if_splits)
  have "action_id NEW \<notin> set (map action_id (user_actions d))"
    using fresh by (auto simp add: find_None_iff)
  then have c1: "constraints ?d1"
    using assms(1) ok usr by (simp add: constraints_def has_user_def)
  show ?thesis
  proof (cases "verified NEW")
    case False
    then show ?thesis using trig c1 by (simp add: global_sync_insert_trigger_def)
  next
    case True
    then obtain returned where
      "global_sync_trigger_function now None NEW ?d1 = Inr (d', returned)"
      using trig by (auto simp add: global_sync_insert_trigger_def split: sum.splits)
    then show ?thesis by (rule trigger_function_constraints [OF c1])
  qed
qed

lemma markVerified_constraints:
  assumes "constraints d" and "markVerified now e d = Inr d'"
  shows "constraints d'"
proof -
  from assms(2) obtain ev where ev: "stored_event d e = Some ev"
    by (auto simp add: markVerified_def stored_event_def split: option.splits)
  let ?new = "ev\<lparr>verified := True\<rparr>"
  let ?d1 = "d\<lparr>user_actions := map (\<lambda>a. if action_id a = e then ?new else a) (user_actions d)\<rparr>"
  have key: "action_id ev = e"
    using ev unfolding stored_event_def by (rule find_key)
  have mem: "ev \<in> set (user_actions d)"
    using ev by (auto simp add: stored_event_def find_Some_iff)
  have keys: "map action_id (map (\<lambda>a. if action_id a = e then ?new else a) (user_actions d))
                = map action_id (user_actions d)"
    using key by (induction "user_actions d") (auto simp add: comp_def)
  have "user_actions ?d1 = map (\<lambda>a. if action_id a = e then ?new else a) (user_actions d)"
    by simp
  then have "map action_id (user_actions ?d1) = map action_id (user_actions d)"
    using keys by (rule ssubst)
  then have "distinct (map action_id (user_actions ?d1))"
    using assms(1) by (simp only: constraints_def)
  moreover have "list_all (\<lambda>a. user_actions_row_ok a \<and> has_user ?d1 (ua_user_id a))
                   (user_actions ?d1)"
    using assms(1) mem
    by (auto simp add: constraints_def list_all_iff user_actions_row_ok_def has_user_def)
  ultimately have c1: "constraints ?d1"
    using assms(1) by (simp add: constraints_def has_user_def)
  have trig: "global_sync_trigger now ev ?new ?d1 = Inr d'"
    using assms(2) ev by (simp add: markVerified_def stored_event_def)
  show ?thesis
  proof (cases "verified ev")
    case True
    then show ?thesis using trig c1 by (simp add: global_sync_trigger_def)
  next
    case False
    then obtain returned where
      "global_sync_trigger_function now (Some ev) ?new ?d1 = Inr (d', returned)"
      using trig by (auto simp add: global_sync_trigger_def split: sum.splits)
    then show ?thesis by (rule trigger_function_constraints [OF c1])
  qed
qed

lemma step_constraints: "constraints d \<Longrightarrow> step x d = Inr d' \<Longrightarrow> constraints d'"
  by (cases x) (auto intro: insert_constraints markVerified_constraints)

lemma run_constraints: "constraints d \<Longrightarrow> constraints (run xs d)"
  by (induction xs arbitrary: d) (auto split: sum.splits intro: step_constraints)

lemma migrated_constraints:
  "distinct (map u_user_id us) \<Longrightarrow> constraints (migrated us now)"
  by (simp add: constraints_def migrated_def global_emissions_row_ok_def numeric_fits_def
      bigint_fits_def)

lemma markVerified_noop:
  assumes "constraints d" and "stored_event d e = Some ev" and "verified ev"
  shows "markVerified now e d = Inr d"
proof -
  have key: "action_id ev = e"
    using assms(2) unfolding stored_event_def by (rule find_key)
  have mem: "ev \<in> set (user_actions d)"
    using assms(2) by (auto simp add: stored_event_def find_Some_iff)
  have same: "ev\<lparr>verified := True\<rparr> = ev"
    using assms(3) by (cases ev) simp
  have rows: "map (\<lambda>a. if action_id a = e then ev else a) (user_actions d) = user_actions d"
    using assms(1) mem replace_same [of action_id "user_actions d" ev]
    by (simp add: constraints_def key)
  have "markVerified now e d =
          Inr (d\<lparr>user_actions := map (\<lambda>a. if action_id a = e then ev else a) (user_actions d)\<rparr>)"
    using markVerified_verified [OF assms(2,3), of now] unfolding same .
  then show ?thesis
    unfolding rows by simp
qed

text \<open>
  A verification of an unverified event commits whenever the four sums stay within the
  column types.
\<close>

lemma upsert_commits:
  assumes "list_all (\<lambda>s. user_stats_row_ok s = Inr s \<and> has_user d (us_user_id s)) (user_stats d)"
    and "has_user d (ua_user_id NEW)"
    and "0 \<le> emissions_saved_lbs NEW"
    and "actor_total d (ua_user_id NEW) + emissions_saved_lbs NEW < 10 ^ 16"
    and "actor_count d (ua_user_id NEW) + 1 < 2 ^ 31"
  shows "\<exists>stats. upsert_user_stats now NEW d = Inr stats"
proof (cases "find (\<lambda>s. us_user_id s = ua_user_id NEW) (user_stats d)")
  case None
  then show ?thesis
    using assms(2-5)
    by (simp add: upsert_user_stats_def user_stats_row_ok_def numeric_fits_def integer_fits_def
        has_user_def actor_total_def actor_count_def actor_rollup_def)
next
  case (Some old)
  then have "old \<in> set (user_stats d)"
    by (auto simp add: find_Some_iff)
  then have "user_stats_row_ok old = Inr old"
    using assms(1) by (simp add: list_all_iff)
  then have "0 \<le> total_emissions_lbs old" "0 \<le> action_count old"
    by (auto simp add: user_stats_row_ok_def split: if_splits)
  then show ?thesis
    using Some assms(3-5)
    by (simp add: upsert_user_stats_def user_stats_row_ok_def numeric_fits_def integer_fits_def
        actor_total_def actor_count_def actor_rollup_def)
qed

lemma markVerified_commits:
  assumes "constraints d" and "stored_event d e = Some ev" and "\<not> verified ev"
    and "actor_total d (ua_user_id ev) + emissions_saved_lbs ev < 10 ^ 16"
    and "actor_count d (ua_user_id ev) + 1 < 2 ^ 31"
    and "total_lbs_saved (global_emissions d) + emissions_saved_lbs ev < 10 ^ 20"
    and "total_actions (global_emissions d) + 1 < 2 ^ 63"
  shows "\<exists>d'. markVerified now e d = Inr d'"
proof -
  let ?new = "ev\<lparr>verified := True\<rparr>"
  let ?d1 = "d\<lparr>user_actions := map (\<lambda>a. if action_id a = e then ?new else a) (user_actions d)\<rparr>"
  have mem: "ev \<in> set (user_actions d)"
    using assms(2) by (auto simp add: stored_event_def find_Some_iff)
  then have ev: "user_actions_row_ok ev" "has_user d (ua_user_id ev)"
    using assms(1) by (auto simp add: constraints_def list_all_iff)
  have g: "0 \<le> total_lbs_saved (global_emissions d)" "0 \<le> total_actions (global_emissions d)"
    using assms(1)
    by (auto simp add: constraints_def global_emissions_row_ok_def split: if_splits)
  have "\<exists>stats. upsert_user_stats now ?new ?d1 = Inr stats"
    using assms(1,4,5) ev
    by (intro upsert_commits)
      (simp_all add: constraints_def has_user_def user_actions_row_ok_def actor_total_def
        actor_count_def actor_rollup_def)
  then obtain stats where "upsert_user_stats now ?new ?d1 = Inr stats" ..
  then show ?thesis
    using assms(2,3,6,7) ev(1) g
    by (simp add: markVerified_def stored_event_def global_sync_trigger_def
        global_sync_trigger_function_def global_emissions_row_ok_def numeric_fits_def
        bigint_fits_def user_actions_row_ok_def)
qed

text \<open>So does an insert of a well-formed row with a fresh id for a known user.\<close>

lemma insert_commits:
  assumes "constraints d" and "user_actions_row_ok NEW"
    and "stored_event d (action_id NEW) = None" and "has_user d (ua_user_id NEW)"
    and "actor_total d (ua_user_id NEW) + emissions_saved_lbs NEW < 10 ^ 16"
    and "actor_count d (ua_user_id NEW) + 1 < 2 ^ 31"
    and "total_lbs_saved (global_emissions d) + emissions_saved_lbs NEW < 10 ^ 20"
    and "total_actions (global_emissions d) + 1 < 2 ^ 63"
  shows "\<exists>d1. insert_user_actions now NEW d = Inr d1"
proof (cases "verified NEW")
  case False
  then show ?thesis
    using assms(2-4)
    by (simp add: insert_user_actions_def user_actions_row_ok_def stored_event_def
        has_user_def global_sync_insert_trigger_def)
next
  case True
  let ?d1 = "d\<lparr>user_actions := user_actions d @ [NEW]\<rparr>"
  have g: "0 \<le> total_lbs_saved (global_emissions d)" "0 \<le> total_actions (global_emissions d)"
    using assms(1)
    by (auto simp add: constraints_def global_emissions_row_ok_def split: if_splits)
  have "\<exists>stats. upsert_user_stats now NEW ?d1 = Inr stats"
    using assms(1,2,4,5,6)
    by (intro upsert_commits)
      (simp_all add: constraints_def has_user_def user_actions_row_ok_def actor_total_def
        actor_count_def actor_rollup_def)
  then obtain stats where "upsert_user_stats now NEW ?d1 = Inr stats" ..
  then show ?thesis
    using True assms(2-4,7,8) g
    by (auto simp add: insert_user_actions_def user_actions_row_ok_def stored_event_def
        has_user_def global_sync_insert_trigger_def global_sync_trigger_function_def
        global_emissions_row_ok_def numeric_fits_def bigint_fits_def)
qed

subsection \<open>The aggregator keeps the global total equal to the sum of the actors\<close>

lemma actor_sum_split:
  "distinct (map us_user_id (user_stats d)) \<Longrightarrow>
     actor_sum d = actor_total d uid + sum_list (map total_emissions_lbs (other_rollups d uid))"
  unfolding actor_sum_def actor_total_def actor_rollup_def other_rollups_def
  by (rule sum_list_split_key)

lemma credited_actor_sum:
  assumes "constraints d" and "constraints d'" and "credited uid q d d'"
  shows "actor_sum d' = actor_sum d + q"
proof -
  have "actor_sum d' = actor_total d' uid + sum_list (map total_emissions_lbs (other_rollups d' uid))"
    using assms(2) by (intro actor_sum_split) (simp add: constraints_def)
  moreover have "actor_sum d = actor_total d uid + sum_list (map total_emissions_lbs (other_rollups d uid))"
    using assms(1) by (intro actor_sum_split) (simp add: constraints_def)
  ultimately show ?thesis
    using assms(3) by (simp add: credited_def)
qed

lemma step_keeps_exact:
  assumes "constraints d" and "total_lbs_saved (global_emissions d) = actor_sum d"
    and "step x d = Inr d'"
  shows "total_lbs_saved (global_emissions d') = actor_sum d'"
proof -
  have c': "constraints d'" using assms(1,3) by (rule step_constraints)
  consider uid q where "credited uid q d d'" | "rollups d' = rollups d"
  proof (cases x)
    case (Append now NEW)
    then have "insert_user_actions now NEW d = Inr d'" using assms(3) by simp
    from insert_effect [OF this] that show ?thesis by (auto split: if_splits)
  next
    case (MarkVerified now e)
    then have mv: "markVerified now e d = Inr d'" using assms(3) by simp
    then obtain ev where ev: "stored_event d e = Some ev"
      by (auto simp add: markVerified_def stored_event_def split: option.splits)
    show ?thesis
    proof (cases "verified ev")
      case True
      from markVerified_verified [OF ev True, of now] mv have "rollups d' = rollups d"
        by (auto simp add: rollups_def)
      then show ?thesis by (rule that(2))
    next
      case False
      from markVerified_fires [OF ev False mv] show ?thesis by (rule that(1))
    qed
  qed
  then show ?thesis
  proof cases
    case 1
    from credited_actor_sum [OF assms(1) c' 1] 1 assms(2) show ?thesis
      by (simp add: credited_def)
  next
    case 2
    then show ?thesis using assms(2) by (simp add: rollups_def actor_sum_def)
  qed
qed

lemma run_keeps_exact:
  "constraints d \<Longrightarrow> total_lbs_saved (global_emissions d) = actor_sum d
   \<Longrightarrow> total_lbs_saved (global_emissions (run xs d)) = actor_sum (run xs d)"
proof (induction xs arbitrary: d)
  case Nil
  then show ?case by simp
next
  case (Cons x xs)
  show ?case
  proof (cases "step x d")
    case (Inl e)
    then show ?thesis using Cons by simp
  next
    case (Inr d')
    have "constraints d'" using Cons.prems(1) Inr by (rule step_constraints)
    moreover have "total_lbs_saved (global_emissions d') = actor_sum d'"
      using Cons.prems Inr by (rule step_keeps_exact)
    ultimately show ?thesis using Cons.IH [of d'] Inr by simp
  qed
qed

subsection \<open>The reconciler, branch by branch\<close>

lemma sync_in_sync:
  "\<bar>actor_sum d - total_lbs_saved (global_emissions d)\<bar> < 100
   \<Longrightarrow> sync_global_emissions_from_user_stats now d =
       Inr (d, \<lparr>was_in_sync = True, user_stats_sum = actor_sum d,
                global_total = total_lbs_saved (global_emissions d), fixed = False\<rparr>)"
  by (simp add: sync_global_emissions_from_user_stats_def Let_def actor_sum_def)

lemma sync_repair:
  assumes "\<not> \<bar>actor_sum d - total_lbs_saved (global_emissions d)\<bar> < 100"
    and "sync_global_emissions_from_user_stats now d = Inr (d', r)"
  shows "d' = d\<lparr>global_emissions :=
                  (global_emissions d)\<lparr>total_lbs_saved := actor_sum d, ge_last_updated := now\<rparr>,
                sync_audit_log := sync_audit_log d @
                  [\<lparr>check_timestamp = now, log_was_in_sync = False,
                    log_user_stats_sum = actor_sum d,
                    log_global_total = total_lbs_saved (global_emissions d),
                    discrepancy = \<bar>actor_sum d - total_lbs_saved (global_emissions d)\<bar>,
                    log_fixed = True, details = None\<rparr>]\<rparr>
         \<and> r = \<lparr>was_in_sync = False, user_stats_sum = actor_sum d,
                 global_total = total_lbs_saved (global_emissions d), fixed = True\<rparr>"
  using assms
  by (auto simp add: sync_global_emissions_from_user_stats_def Let_def actor_sum_def
      global_emissions_row_ok_def sync_audit_log_row_ok_def split: if_splits sum.splits)

lemma sync_returns:
  assumes "constraints d" and "actor_sum d < 10 ^ 20"
  shows "\<exists>d' r. sync_global_emissions_from_user_stats now d = Inr (d', r)"
proof -
  have nonneg: "0 \<le> actor_sum d"
    using assms(1) unfolding actor_sum_def constraints_def
    by (auto intro!: sum_list_nonneg simp add: list_all_iff user_stats_row_ok_def
        split: if_splits)
  have g: "0 \<le> total_lbs_saved (global_emissions d)" "total_lbs_saved (global_emissions d) < 10 ^ 20"
    "bigint_fits (total_actions (global_emissions d))" "0 \<le> total_actions (global_emissions d)"
    using assms(1) unfolding constraints_def
    by (auto simp add: global_emissions_row_ok_def numeric_fits_def split: if_splits)
  show ?thesis
    using nonneg g assms(2)
    by (auto simp add: sync_global_emissions_from_user_stats_def Let_def actor_sum_def
        global_emissions_row_ok_def sync_audit_log_row_ok_def numeric_fits_def)
qed

text \<open>
  Out of sync, under the declared constraints and with a sum that the column of the global
  total holds, the reconciler does return, with the repair.
\<close>

lemma sync_repairs:
  assumes "\<not> \<bar>actor_sum d - total_lbs_saved (global_emissions d)\<bar> < 100"
    and "constraints d" and "actor_sum d < 10 ^ 20"
  shows "sync_global_emissions_from_user_stats now d =
           Inr (d\<lparr>global_emissions :=
                    (global_emissions d)\<lparr>total_lbs_saved := actor_sum d, ge_last_updated := now\<rparr>,
                  sync_audit_log := sync_audit_log d @
                    [\<lparr>check_timestamp = now, log_was_in_sync = False,
                      log_user_stats_sum = actor_sum d,
                      log_global_total = total_lbs_saved (global_emissions d),
                      discrepancy = \<bar>actor_sum d - total_lbs_saved (global_emissions d)\<bar>,
                      log_fixed = True, details = None\<rparr>]\<rparr>,
                \<lparr>was_in_sync = False, user_stats_sum = actor_sum d,
                 global_total = total_lbs_saved (global_emissions d), fixed = True\<rparr>)"
proof -
  obtain d' r where ret: "sync_global_emissions_from_user_stats now d = Inr (d', r)"
    using sync_returns [OF assms(2,3)] by blast
  from sync_repair [OF assms(1) ret] ret show ?thesis by simp
qed

text \<open>
  After any session on the migrated database the reconciler finds the rollups in sync
  and writes nothing.
\<close>

lemma reconcile_after_session:
  assumes "distinct (map u_user_id us)"
  shows "sync_global_emissions_from_user_stats now (run ops (migrated us t)) =
           Inr (run ops (migrated us t),
                \<lparr>was_in_sync = True, user_stats_sum = actor_sum (run ops (migrated us t)),
                 global_total = actor_sum (run ops (migrated us t)), fixed = False\<rparr>)"
proof -
  let ?d = "run ops (migrated us t)"
  have "constraints (migrated us t)"
    using assms by (rule migrated_constraints)
  moreover have "total_lbs_saved (global_emissions (migrated us t)) = actor_sum (migrated us t)"
    by (simp add: migrated_def actor_sum_def)
  ultimately have "total_lbs_saved (global_emissions ?d) = actor_sum ?d"
    by (rule run_keeps_exact)
  then show ?thesis
    using sync_in_sync [of ?d now] by simp
qed

subsection \<open>The scenarios, evaluated\<close>

lemmas engine_defs =
  migrated_def insert_user_actions_def markVerified_def global_sync_trigger_def
  global_sync_insert_trigger_def global_sync_trigger_function_def upsert_user_stats_def
  user_stats_row_ok_def global_emissions_row_ok_def numeric_fits_def integer_fits_def
  bigint_fits_def

lemmas scenario_defs =
  alice_def bob_def action_A_def action_B_def stats_A_def stats_B_def

lemma submit_A_runs:
  "run [Append 1 action_A] (migrated [alice, bob] 0) =
     (migrated [alice, bob] 0)\<lparr>user_actions := [action_A]\<rparr>"
  by (simp add: engine_defs scenario_defs)

lemma verify_A_runs:
  "markVerified 2 1 ((migrated [alice, bob] 0)\<lparr>user_actions := [action_A]\<rparr>) = Inr after_A"
  by (simp add: engine_defs scenario_defs after_A_def)

lemma session_runs: "run session (migrated [alice, bob] 0) = after_session"
  by (simp add: session_def after_session_def engine_defs scenario_defs)

lemma corrupted_is_repaired:
  "sync_global_emissions_from_user_stats 5 corrupted =
     Inr (repaired, \<lparr>was_in_sync = False, user_stats_sum = 80000, global_total = 1000000,
                     fixed = True\<rparr>)"
  by (simp add: sync_global_emissions_from_user_stats_def corrupted_def repaired_def
      after_session_def scenario_defs global_emissions_row_ok_def sync_audit_log_row_ok_def
      numeric_fits_def bigint_fits_def)

lemma undercounted_catches_up:
  "sync_global_emissions_from_user_stats 5 undercounted =
     Inr (caught_up, \<lparr>was_in_sync = False, user_stats_sum = 80000, global_total = 30000,
                      fixed = True\<rparr>)"
  by (simp add: sync_global_emissions_from_user_stats_def undercounted_def caught_up_def
      after_session_def scenario_defs global_emissions_row_ok_def sync_audit_log_row_ok_def
      numeric_fits_def bigint_fits_def)

lemma verify_A2_runs: "markVerified 6 3 second_submitted = Inr after_A2"
  by (simp add: engine_defs scenario_defs second_submitted_def after_A_def after_A2_def
      action_A2_def)

lemma insert_A2_runs:
  "insert_user_actions 6 (action_A2\<lparr>verified := True\<rparr>) after_A = Inr after_A2"
  by (simp add: engine_defs scenario_defs after_A_def after_A2_def action_A2_def)

lemma scenario_constraints:
  "constraints (migrated [alice, bob] 0)"
  "constraints ((migrated [alice, bob] 0)\<lparr>user_actions := [action_A]\<rparr>)"
  "constraints after_A"
  "constraints second_submitted"
  "constraints after_session"
  "constraints corrupted"
  "constraints undercounted"
  by (simp_all add: constraints_def has_user_def user_actions_row_ok_def engine_defs
      scenario_defs after_A_def second_submitted_def after_session_def corrupted_def
      undercounted_def action_A2_def)

text \<open>The crowd: the constraints hold, and the sum is \<open>10001\<close> times the largest total.\<close>

lemma crowded_sum: "actor_sum crowded = 10001 * (10 ^ 16 - 1)"
  by (simp add: actor_sum_def crowded_def comp_def sum_list_triv)

lemma find_crowd:
  "i < 10001 \<Longrightarrow> find (\<lambda>u. u_user_id u = i) crowd \<noteq> None"
  by (auto simp add: crowd_def find_None_iff)

lemma crowded_constraints: "constraints crowded"
proof -
  have "map u_user_id crowd = [0..<10001]"
    unfolding crowd_def by (simp add: comp_def)
  moreover have "map us_user_id (user_stats crowded) = [0..<10001]"
    unfolding crowded_def by (simp add: comp_def)
  moreover have "list_all (\<lambda>s. user_stats_row_ok s = Inr s \<and> has_user crowded (us_user_id s))
                   (user_stats crowded)"
    using find_crowd
    by (simp add: crowded_def list_all_iff has_user_def user_stats_row_ok_def numeric_fits_def
        integer_fits_def)
  ultimately show ?thesis
    by (simp add: constraints_def)
       (simp add: crowded_def global_emissions_row_ok_def numeric_fits_def bigint_fits_def)
qed

lemma crowded_aborts:
  "sync_global_emissions_from_user_stats 5 crowded = Inl Numeric_value_out_of_range"
proof -
  have "sum_list (map total_emissions_lbs (user_stats crowded)) = 10001 * (10 ^ 16 - 1)"
    using crowded_sum by (simp add: actor_sum_def)
  moreover have "global_emissions crowded = \<lparr>total_lbs_saved = 0, total_actions = 0, ge_last_updated = 0\<rparr>"
    by (simp add: crowded_def)
  ultimately show ?thesis
    by (simp add: sync_global_emissions_from_user_stats_def Let_def global_emissions_row_ok_def
        numeric_fits_def)
qed

section \<open>The claims about the engine\<close>

text \<open>
  \<^bold>\<open>C1.\<close> After any sequence of submissions and verifications, in any order and from
  any database, a reconciliation that returns leaves the global total within the
  tolerance of the sum of the actor totals: their difference is below \<open>0.01\<close> lb, that
  is \<open>100\<close> units.
\<close>

theorem reconcile_restores_invariant:
  assumes "sync_global_emissions_from_user_stats now (run ops d) = Inr (d', r)"
  shows "\<bar>total_lbs_saved (global_emissions d') - actor_sum d'\<bar> < 100"
proof (cases "\<bar>actor_sum (run ops d) - total_lbs_saved (global_emissions (run ops d))\<bar> < 100")
  case True
  from sync_in_sync [OF True, of now] assms have "d' = run ops d" by simp
  with True show ?thesis by simp
next
  case False
  from sync_repair [OF False assms] have
    "total_lbs_saved (global_emissions d') = actor_sum (run ops d)"
    and "user_stats d' = user_stats (run ops d)"
    by simp_all
  then show ?thesis by (simp add: actor_sum_def)
qed

text \<open>
  Witness: on the corrupted database a verification of the verified event 1 changes
  nothing and one of the unknown event 9 fails; the reconciliation then repairs the
  global total to \<open>8.0\<close> lb.
\<close>

theorem reconcile_restores_invariant_witness:
  "sync_global_emissions_from_user_stats 5 (run [MarkVerified 6 1, MarkVerified 7 9] corrupted) =
     Inr (repaired, \<lparr>was_in_sync = False, user_stats_sum = 80000, global_total = 1000000,
                     fixed = True\<rparr>)
   \<and> \<bar>total_lbs_saved (global_emissions repaired) - actor_sum repaired\<bar> < 100"
proof -
  have same: "run [MarkVerified 6 1, MarkVerified 7 9] corrupted = corrupted"
    by (simp add: engine_defs scenario_defs corrupted_def after_session_def)
  have returns:
    "sync_global_emissions_from_user_stats 5 (run [MarkVerified 6 1, MarkVerified 7 9] corrupted) =
       Inr (repaired, \<lparr>was_in_sync = False, user_stats_sum = 80000, global_total = 1000000,
                       fixed = True\<rparr>)"
    unfolding same by (rule corrupted_is_repaired)
  from reconcile_restores_invariant [OF returns] returns show ?thesis by simp
qed

text \<open>
  \<^bold>\<open>C2\<close>, as the code has it. The reconciler compares the sum of the actor totals with
  the global total. Within the tolerance it returns \<open>was_in_sync = true\<close> and the database
  as it was, in every state. Otherwise, in every state that satisfies the declared
  constraints and whose sum the column of the global total holds (below \<open>10\<^sup>1\<^sup>6\<close> lb,
  \<open>10\<^sup>2\<^sup>0\<close> units), it returns with \<open>fixed = true\<close>, the global total overwritten with the
  sum, and one audit record appended that carries the sum, the global total it found
  and their absolute difference.
\<close>

theorem reconcile_contract:
  "(\<bar>actor_sum d - total_lbs_saved (global_emissions d)\<bar> < 100 \<longrightarrow>
      sync_global_emissions_from_user_stats now d =
        Inr (d, \<lparr>was_in_sync = True, user_stats_sum = actor_sum d,
                 global_total = total_lbs_saved (global_emissions d), fixed = False\<rparr>))
   \<and> (\<not> \<bar>actor_sum d - total_lbs_saved (global_emissions d)\<bar> < 100
        \<and> constraints d \<and> actor_sum d < 10 ^ 20 \<longrightarrow>
      sync_global_emissions_from_user_stats now d =
        Inr (d\<lparr>global_emissions :=
                 (global_emissions d)\<lparr>total_lbs_saved := actor_sum d, ge_last_updated := now\<rparr>,
               sync_audit_log := sync_audit_log d @
                 [\<lparr>check_timestamp = now, log_was_in_sync = False,
                   log_user_stats_sum = actor_sum d,
                   log_global_total = total_lbs_saved (global_emissions d),
                   discrepancy = \<bar>actor_sum d - total_lbs_saved (global_emissions d)\<bar>,
                   log_fixed = True, details = None\<rparr>]\<rparr>,
             \<lparr>was_in_sync = False, user_stats_sum = actor_sum d,
              global_total = total_lbs_saved (global_emissions d), fixed = True\<rparr>))"
proof (rule conjI; rule impI)
  assume "\<bar>actor_sum d - total_lbs_saved (global_emissions d)\<bar> < 100"
  then show "sync_global_emissions_from_user_stats now d =
        Inr (d, \<lparr>was_in_sync = True, user_stats_sum = actor_sum d,
                 global_total = total_lbs_saved (global_emissions d), fixed = False\<rparr>)"
    by (rule sync_in_sync)
next
  assume "\<not> \<bar>actor_sum d - total_lbs_saved (global_emissions d)\<bar> < 100
          \<and> constraints d \<and> actor_sum d < 10 ^ 20"
  then have off: "\<not> \<bar>actor_sum d - total_lbs_saved (global_emissions d)\<bar> < 100"
    and c: "constraints d" and fits: "actor_sum d < 10 ^ 20"
    by simp_all
  show "sync_global_emissions_from_user_stats now d =
        Inr (d\<lparr>global_emissions :=
                 (global_emissions d)\<lparr>total_lbs_saved := actor_sum d, ge_last_updated := now\<rparr>,
               sync_audit_log := sync_audit_log d @
                 [\<lparr>check_timestamp = now, log_was_in_sync = False,
                   log_user_stats_sum = actor_sum d,
                   log_global_total = total_lbs_saved (global_emissions d),
                   discrepancy = \<bar>actor_sum d - total_lbs_saved (global_emissions d)\<bar>,
                   log_fixed = True, details = None\<rparr>]\<rparr>,
             \<lparr>was_in_sync = False, user_stats_sum = actor_sum d,
              global_total = total_lbs_saved (global_emissions d), fixed = True\<rparr>)"
    using off c fits by (rule sync_repairs)
qed

text \<open>
  Witness, with A at \<open>5.0\<close> and B at \<open>3.0\<close> lb: the untampered database is in sync; with
  the global total corrupted to \<open>100.0\<close> the discrepancy is \<open>92.0\<close>, the total becomes
  \<open>8.0\<close> and the audit record says so; with the global total fallen behind to \<open>3.0\<close> the
  discrepancy is \<open>5.0\<close> and the total becomes \<open>8.0\<close> as well.
\<close>

theorem reconcile_contract_witness:
  "sync_global_emissions_from_user_stats 5 after_session =
     Inr (after_session, \<lparr>was_in_sync = True, user_stats_sum = 80000, global_total = 80000,
                          fixed = False\<rparr>)
   \<and> sync_global_emissions_from_user_stats 5 corrupted =
     Inr (repaired, \<lparr>was_in_sync = False, user_stats_sum = 80000, global_total = 1000000,
                     fixed = True\<rparr>)
   \<and> sync_global_emissions_from_user_stats 5 undercounted =
     Inr (caught_up, \<lparr>was_in_sync = False, user_stats_sum = 80000, global_total = 30000,
                      fixed = True\<rparr>)
   \<and> total_lbs_saved (global_emissions repaired) = 80000
   \<and> map discrepancy (sync_audit_log repaired) = [920000]
   \<and> total_lbs_saved (global_emissions caught_up) = 80000
   \<and> map discrepancy (sync_audit_log caught_up) = [50000]"
proof -
  have sums: "actor_sum after_session = 80000" "actor_sum corrupted = 80000"
    "actor_sum undercounted = 80000"
    by (simp_all add: actor_sum_def corrupted_def undercounted_def after_session_def
        scenario_defs)
  have totals: "total_lbs_saved (global_emissions after_session) = 80000"
    "total_lbs_saved (global_emissions corrupted) = 1000000"
    "total_lbs_saved (global_emissions undercounted) = 30000"
    by (simp_all add: corrupted_def undercounted_def after_session_def)
  have "sync_global_emissions_from_user_stats 5 after_session =
     Inr (after_session, \<lparr>was_in_sync = True, user_stats_sum = 80000, global_total = 80000,
                          fixed = False\<rparr>)"
    using reconcile_contract [of after_session 5] by (simp add: sums totals)
  moreover have "sync_global_emissions_from_user_stats 5 corrupted =
     Inr (repaired, \<lparr>was_in_sync = False, user_stats_sum = 80000, global_total = 1000000,
                     fixed = True\<rparr>)"
    using reconcile_contract [of corrupted 5] scenario_constraints(6)
    by (simp add: sums totals) (simp add: corrupted_def repaired_def after_session_def)
  moreover have "sync_global_emissions_from_user_stats 5 undercounted =
     Inr (caught_up, \<lparr>was_in_sync = False, user_stats_sum = 80000, global_total = 30000,
                      fixed = True\<rparr>)"
    using reconcile_contract [of undercounted 5] scenario_constraints(7)
    by (simp add: sums totals) (simp add: undercounted_def caught_up_def after_session_def)
  ultimately show ?thesis
    by (simp add: repaired_def caught_up_def after_session_def)
qed

text \<open>
  Counterexample to \<^bold>\<open>C2\<close> as stated, for every state: the crowd satisfies every
  declared constraint and is out of sync, and the reconciler overwrites nothing: the
  sum does not fit \<^verbatim>\<open>NUMERIC(20,4)\<close> and the pass aborts.
\<close>

theorem reconcile_aborts_on_overflow:
  "constraints crowded
   \<and> \<not> \<bar>actor_sum crowded - total_lbs_saved (global_emissions crowded)\<bar> < 100
   \<and> sync_global_emissions_from_user_stats 5 crowded = Inl Numeric_value_out_of_range"
  using crowded_constraints crowded_aborts
  by (simp add: crowded_sum) (simp add: crowded_def)

text \<open>
  \<^bold>\<open>C7\<close>, as the code has it. A reconciliation that returns gives one result row. It
  appends one audit record when it found the rollups out of sync, and none when it found
  them in sync.
\<close>

theorem reconcile_audits_repairs_only:
  assumes "sync_global_emissions_from_user_stats now d = Inr (d', r)"
  shows "was_in_sync r = (\<bar>actor_sum d - total_lbs_saved (global_emissions d)\<bar> < 100)
         \<and> fixed r = (\<not> was_in_sync r)
         \<and> length (sync_audit_log d') =
             length (sync_audit_log d) + (if was_in_sync r then 0 else 1)"
proof (cases "\<bar>actor_sum d - total_lbs_saved (global_emissions d)\<bar> < 100")
  case True
  from sync_in_sync [OF True, of now] assms True show ?thesis by auto
next
  case False
  from sync_repair [OF False assms] False show ?thesis by simp
qed

theorem reconcile_audits_repairs_only_witness:
  "sync_global_emissions_from_user_stats 5 corrupted =
     Inr (repaired, \<lparr>was_in_sync = False, user_stats_sum = 80000, global_total = 1000000,
                     fixed = True\<rparr>)
   \<and> length (sync_audit_log repaired) = length (sync_audit_log corrupted) + 1"
  using reconcile_audits_repairs_only [OF corrupted_is_repaired] corrupted_is_repaired
  by simp

text \<open>
  Counterexample to \<^bold>\<open>C7\<close> as stated: the pass over the untampered database of the
  scenario finds it in sync, returns it as it was, and its audit log is still empty.
\<close>

theorem reconcile_in_sync_leaves_no_audit:
  "sync_global_emissions_from_user_stats 5 after_session =
     Inr (after_session, \<lparr>was_in_sync = True, user_stats_sum = 80000, global_total = 80000,
                          fixed = False\<rparr>)
   \<and> sync_audit_log after_session = []"
  by (simp add: sync_global_emissions_from_user_stats_def after_session_def scenario_defs)

text \<open>
  \<^bold>\<open>C3.\<close> The verification of an unverified event flips the flag of the event and
  credits its quantity once: the actor has a rollup whose total is larger by the
  quantity and whose count is larger by one (both counted from \<open>0\<close> when the actor had
  no rollup, so a new rollup holds the quantity and the count 1), the other actors'
  rollups are untouched, and the global rollup has the quantity and one event more.
  This is what every verification that commits does; and the verification does commit
  in every database that satisfies the declared constraints, as long as the four new
  sums stay within their columns.
\<close>

theorem verification_credits_rollups:
  assumes "stored_event d e = Some ev" and "\<not> verified ev"
  shows "(markVerified now e d = Inr d' \<longrightarrow>
            stored_event d' e = Some (ev\<lparr>verified := True\<rparr>)
            \<and> credited (ua_user_id ev) (emissions_saved_lbs ev) d d')
         \<and> (constraints d
              \<and> actor_total d (ua_user_id ev) + emissions_saved_lbs ev < 10 ^ 16
              \<and> actor_count d (ua_user_id ev) + 1 < 2 ^ 31
              \<and> total_lbs_saved (global_emissions d) + emissions_saved_lbs ev < 10 ^ 20
              \<and> total_actions (global_emissions d) + 1 < 2 ^ 63 \<longrightarrow>
            (\<exists>d''. markVerified now e d = Inr d''
                  \<and> stored_event d'' e = Some (ev\<lparr>verified := True\<rparr>)
                  \<and> credited (ua_user_id ev) (emissions_saved_lbs ev) d d''))"
proof (rule conjI; rule impI)
  assume commits: "markVerified now e d = Inr d'"
  show "stored_event d' e = Some (ev\<lparr>verified := True\<rparr>)
        \<and> credited (ua_user_id ev) (emissions_saved_lbs ev) d d'"
    using markVerified_event [OF assms(1) commits] markVerified_fires [OF assms commits]
    by simp
next
  assume "constraints d
          \<and> actor_total d (ua_user_id ev) + emissions_saved_lbs ev < 10 ^ 16
          \<and> actor_count d (ua_user_id ev) + 1 < 2 ^ 31
          \<and> total_lbs_saved (global_emissions d) + emissions_saved_lbs ev < 10 ^ 20
          \<and> total_actions (global_emissions d) + 1 < 2 ^ 63"
  then obtain d'' where commits: "markVerified now e d = Inr d''"
    using markVerified_commits [OF _ assms, of now] by blast
  then show "\<exists>d''. markVerified now e d = Inr d''
                \<and> stored_event d'' e = Some (ev\<lparr>verified := True\<rparr>)
                \<and> credited (ua_user_id ev) (emissions_saved_lbs ev) d d''"
    using markVerified_event [OF assms(1) commits] markVerified_fires [OF assms commits]
    by blast
qed

text \<open>
  Witness. The first verification of A creates her rollup with \<open>5.0\<close> lb and one event.
  The verification of her second event, of \<open>2.0\<close> lb, finds that rollup and leaves it at
  \<open>7.0\<close> lb and two events, and the global rollup at \<open>7.0\<close> lb and two events.
\<close>

theorem verification_credits_rollups_witness:
  "markVerified 2 1 ((migrated [alice, bob] 0)\<lparr>user_actions := [action_A]\<rparr>) = Inr after_A
   \<and> actor_rollup ((migrated [alice, bob] 0)\<lparr>user_actions := [action_A]\<rparr>) 1 = None
   \<and> actor_rollup after_A 1 = Some stats_A
   \<and> credited 1 50000 ((migrated [alice, bob] 0)\<lparr>user_actions := [action_A]\<rparr>) after_A
   \<and> markVerified 6 3 second_submitted = Inr after_A2
   \<and> actor_rollup second_submitted 1 = Some stats_A
   \<and> actor_rollup after_A2 1 =
       Some (stats_A\<lparr>total_emissions_lbs := 70000, action_count := 2, us_last_updated := 6\<rparr>)
   \<and> credited 1 20000 second_submitted after_A2
   \<and> total_lbs_saved (global_emissions after_A2) = 70000
   \<and> total_actions (global_emissions after_A2) = 2"
proof -
  let ?d = "(migrated [alice, bob] 0)\<lparr>user_actions := [action_A]\<rparr>"
  have ev: "stored_event ?d 1 = Some action_A" "stored_event second_submitted 3 = Some action_A2"
    by (simp_all add: stored_event_def action_A_def action_A2_def second_submitted_def
        after_A_def)
  have unverified: "\<not> verified action_A" "\<not> verified action_A2"
    by (simp_all add: action_A_def action_A2_def)
  have rollups_before: "actor_rollup ?d 1 = None" "actor_rollup second_submitted 1 = Some stats_A"
    by (simp_all add: actor_rollup_def migrated_def second_submitted_def after_A_def
        stats_A_def)
  have rollups_after: "actor_rollup after_A 1 = Some stats_A"
    "actor_rollup after_A2 1 =
       Some (stats_A\<lparr>total_emissions_lbs := 70000, action_count := 2, us_last_updated := 6\<rparr>)"
    by (simp_all add: actor_rollup_def after_A_def after_A2_def stats_A_def)
  have pre1: "constraints ?d
              \<and> actor_total ?d (ua_user_id action_A) + emissions_saved_lbs action_A < 10 ^ 16
              \<and> actor_count ?d (ua_user_id action_A) + 1 < 2 ^ 31
              \<and> total_lbs_saved (global_emissions ?d) + emissions_saved_lbs action_A < 10 ^ 20
              \<and> total_actions (global_emissions ?d) + 1 < 2 ^ 63"
    using scenario_constraints(2)
    by (simp add: actor_total_def actor_count_def actor_rollup_def migrated_def action_A_def)
  have pre2: "constraints second_submitted
              \<and> actor_total second_submitted (ua_user_id action_A2)
                  + emissions_saved_lbs action_A2 < 10 ^ 16
              \<and> actor_count second_submitted (ua_user_id action_A2) + 1 < 2 ^ 31
              \<and> total_lbs_saved (global_emissions second_submitted)
                  + emissions_saved_lbs action_A2 < 10 ^ 20
              \<and> total_actions (global_emissions second_submitted) + 1 < 2 ^ 63"
    using scenario_constraints(4)
    by (simp add: actor_total_def actor_count_def actor_rollup_def stats_A_def action_A2_def
        second_submitted_def after_A_def)
  obtain x where x: "markVerified 2 1 ?d = Inr x"
      "credited (ua_user_id action_A) (emissions_saved_lbs action_A) ?d x"
    using verification_credits_rollups [OF ev(1) unverified(1), of 2 x, THEN conjunct2] pre1
    by blast
  obtain y where y: "markVerified 6 3 second_submitted = Inr y"
      "credited (ua_user_id action_A2) (emissions_saved_lbs action_A2) second_submitted y"
    using verification_credits_rollups [OF ev(2) unverified(2), of 6 y, THEN conjunct2] pre2
    by blast
  have first: "markVerified 2 1 ?d = Inr after_A
               \<and> credited (ua_user_id action_A) (emissions_saved_lbs action_A) ?d after_A"
    using x verify_A_runs by simp
  have second: "markVerified 6 3 second_submitted = Inr after_A2
               \<and> credited (ua_user_id action_A2) (emissions_saved_lbs action_A2)
                    second_submitted after_A2"
    using y verify_A2_runs by simp
  show ?thesis
    using first second rollups_before rollups_after
    by (simp add: action_A_def action_A2_def after_A2_def)
qed

text \<open>
  \<^bold>\<open>C4.\<close> Verifying an event that is already verified is not an error and leaves both
  kinds of rollup as they are (under the declared constraints, the whole database); and
  after a verification that committed, a second one of the same event commits too and
  leaves the rollups as the first one left them.
\<close>

theorem markVerified_idempotent:
  "(stored_event d e = Some ev \<and> verified ev \<longrightarrow>
      (\<exists>d'. markVerified now e d = Inr d' \<and> rollups d' = rollups d
            \<and> (constraints d \<longrightarrow> d' = d)))
   \<and> (markVerified now e d = Inr d1 \<longrightarrow>
      (\<exists>d2. markVerified now' e d1 = Inr d2 \<and> rollups d2 = rollups d1))"
proof (rule conjI; rule impI)
  assume a: "stored_event d e = Some ev \<and> verified ev"
  then obtain d' where d': "markVerified now e d = Inr d'" "rollups d' = rollups d"
    using markVerified_again by blast
  moreover have "d' = d" if "constraints d"
    using markVerified_noop [OF that, of e ev now] a d'(1) by simp
  ultimately show "\<exists>d'. markVerified now e d = Inr d' \<and> rollups d' = rollups d
                       \<and> (constraints d \<longrightarrow> d' = d)"
    by blast
next
  assume once: "markVerified now e d = Inr d1"
  then obtain ev where ev: "stored_event d e = Some ev"
    by (auto simp add: markVerified_def stored_event_def split: option.splits)
  have "stored_event d1 e = Some (ev\<lparr>verified := True\<rparr>)"
    using markVerified_event [OF ev once] .
  then show "\<exists>d2. markVerified now' e d1 = Inr d2 \<and> rollups d2 = rollups d1"
    using markVerified_again [of d1 e "ev\<lparr>verified := True\<rparr>" now'] by simp
qed

text \<open>
  Witness: after the first verification of the scenario, a second delivery of the same
  verification at a later time returns the very same database.
\<close>

theorem markVerified_idempotent_witness:
  "markVerified 2 1 ((migrated [alice, bob] 0)\<lparr>user_actions := [action_A]\<rparr>) = Inr after_A
   \<and> markVerified 7 1 after_A = Inr after_A"
proof -
  have ev: "stored_event after_A 1 = Some (action_A\<lparr>verified := True\<rparr>)"
    by (simp add: stored_event_def after_A_def action_A_def)
  have c: "constraints after_A"
    by (simp add: constraints_def after_A_def scenario_defs has_user_def
        user_actions_row_ok_def engine_defs)
  obtain d' where "markVerified 7 1 after_A = Inr d'" "constraints after_A \<longrightarrow> d' = after_A"
    using markVerified_idempotent [of after_A 1 "action_A\<lparr>verified := True\<rparr>" 7] ev by auto
  then have "markVerified 7 1 after_A = Inr after_A"
    using c by simp
  then show ?thesis
    using verify_A_runs by simp
qed

text \<open>
  \<^bold>\<open>C10.\<close> An insert of an event that already carries \<open>verified = true\<close> credits the
  event at once, as a verification would; and a later verification of that event commits
  and leaves the rollups alone, so the event is counted once. This is what every such
  insert that commits does; and the insert does commit in every database that satisfies
  the declared constraints, for a well-formed row with a fresh id and a known user, as
  long as the four new sums stay within their columns.
\<close>

theorem insert_verified_credited_once:
  assumes "verified NEW"
  shows "(insert_user_actions now NEW d = Inr d1 \<longrightarrow>
            credited (ua_user_id NEW) (emissions_saved_lbs NEW) d d1
            \<and> (\<exists>d2. markVerified now' (action_id NEW) d1 = Inr d2 \<and> rollups d2 = rollups d1))
         \<and> (constraints d \<and> user_actions_row_ok NEW
              \<and> stored_event d (action_id NEW) = None \<and> has_user d (ua_user_id NEW)
              \<and> actor_total d (ua_user_id NEW) + emissions_saved_lbs NEW < 10 ^ 16
              \<and> actor_count d (ua_user_id NEW) + 1 < 2 ^ 31
              \<and> total_lbs_saved (global_emissions d) + emissions_saved_lbs NEW < 10 ^ 20
              \<and> total_actions (global_emissions d) + 1 < 2 ^ 63 \<longrightarrow>
            (\<exists>d1'. insert_user_actions now NEW d = Inr d1'
                  \<and> credited (ua_user_id NEW) (emissions_saved_lbs NEW) d d1'
                  \<and> (\<exists>d2. markVerified now' (action_id NEW) d1' = Inr d2
                          \<and> rollups d2 = rollups d1')))"
proof -
  have once: "credited (ua_user_id NEW) (emissions_saved_lbs NEW) d x
              \<and> (\<exists>d2. markVerified now' (action_id NEW) x = Inr d2 \<and> rollups d2 = rollups x)"
    if commits: "insert_user_actions now NEW d = Inr x" for x
  proof -
    have "credited (ua_user_id NEW) (emissions_saved_lbs NEW) d x"
      using insert_effect [OF commits] assms by simp
    moreover have "\<exists>d2. markVerified now' (action_id NEW) x = Inr d2 \<and> rollups d2 = rollups x"
      using insert_event [OF commits] assms by (rule markVerified_again)
    ultimately show ?thesis by simp
  qed
  show ?thesis
  proof (rule conjI; rule impI)
    assume "insert_user_actions now NEW d = Inr d1"
    then show "credited (ua_user_id NEW) (emissions_saved_lbs NEW) d d1
        \<and> (\<exists>d2. markVerified now' (action_id NEW) d1 = Inr d2 \<and> rollups d2 = rollups d1)"
      by (rule once)
  next
    assume "constraints d \<and> user_actions_row_ok NEW
            \<and> stored_event d (action_id NEW) = None \<and> has_user d (ua_user_id NEW)
            \<and> actor_total d (ua_user_id NEW) + emissions_saved_lbs NEW < 10 ^ 16
            \<and> actor_count d (ua_user_id NEW) + 1 < 2 ^ 31
            \<and> total_lbs_saved (global_emissions d) + emissions_saved_lbs NEW < 10 ^ 20
            \<and> total_actions (global_emissions d) + 1 < 2 ^ 63"
    then obtain x where "insert_user_actions now NEW d = Inr x"
      using insert_commits [of d NEW now] by blast
    then show "\<exists>d1'. insert_user_actions now NEW d = Inr d1'
                  \<and> credited (ua_user_id NEW) (emissions_saved_lbs NEW) d d1'
                  \<and> (\<exists>d2. markVerified now' (action_id NEW) d1' = Inr d2
                          \<and> rollups d2 = rollups d1')"
      using once by blast
  qed
qed

text \<open>
  Witness. The event of A inserted as verified into the migrated database creates her
  rollup with \<open>5.0\<close> lb. Her second event, of \<open>2.0\<close> lb, inserted as verified at time 6 when
  she has that rollup, leaves it at \<open>7.0\<close> lb and two events; its verification at time 7
  changes nothing.
\<close>

theorem insert_verified_credited_once_witness:
  "insert_user_actions 2 (action_A\<lparr>verified := True\<rparr>) (migrated [alice, bob] 0) = Inr after_A
   \<and> credited 1 50000 (migrated [alice, bob] 0) after_A
   \<and> insert_user_actions 6 (action_A2\<lparr>verified := True\<rparr>) after_A = Inr after_A2
   \<and> actor_rollup after_A 1 = Some stats_A
   \<and> actor_rollup after_A2 1 =
       Some (stats_A\<lparr>total_emissions_lbs := 70000, action_count := 2, us_last_updated := 6\<rparr>)
   \<and> credited 1 20000 after_A after_A2
   \<and> markVerified 7 3 after_A2 = Inr after_A2"
proof -
  have ins: "insert_user_actions 2 (action_A\<lparr>verified := True\<rparr>) (migrated [alice, bob] 0)
               = Inr after_A"
    by (simp add: engine_defs scenario_defs after_A_def)
  have v: "verified (action_A\<lparr>verified := True\<rparr>)" "verified (action_A2\<lparr>verified := True\<rparr>)"
    by simp_all
  have again: "markVerified 7 3 after_A2 = Inr after_A2"
    by (simp add: engine_defs scenario_defs after_A2_def action_A2_def)
  have rollups_after: "actor_rollup after_A 1 = Some stats_A"
    "actor_rollup after_A2 1 =
       Some (stats_A\<lparr>total_emissions_lbs := 70000, action_count := 2, us_last_updated := 6\<rparr>)"
    by (simp_all add: actor_rollup_def after_A_def after_A2_def stats_A_def)
  have pre1: "constraints (migrated [alice, bob] 0)
        \<and> user_actions_row_ok (action_A\<lparr>verified := True\<rparr>)
        \<and> stored_event (migrated [alice, bob] 0) (action_id (action_A\<lparr>verified := True\<rparr>)) = None
        \<and> has_user (migrated [alice, bob] 0) (ua_user_id (action_A\<lparr>verified := True\<rparr>))
        \<and> actor_total (migrated [alice, bob] 0) (ua_user_id (action_A\<lparr>verified := True\<rparr>))
            + emissions_saved_lbs (action_A\<lparr>verified := True\<rparr>) < 10 ^ 16
        \<and> actor_count (migrated [alice, bob] 0) (ua_user_id (action_A\<lparr>verified := True\<rparr>)) + 1
            < 2 ^ 31
        \<and> total_lbs_saved (global_emissions (migrated [alice, bob] 0))
            + emissions_saved_lbs (action_A\<lparr>verified := True\<rparr>) < 10 ^ 20
        \<and> total_actions (global_emissions (migrated [alice, bob] 0)) + 1 < 2 ^ 63"
    using scenario_constraints(1)
    by (simp add: action_A_def user_actions_row_ok_def numeric_fits_def has_user_def
        stored_event_def actor_total_def actor_count_def actor_rollup_def migrated_def
        alice_def bob_def)
  have pre2: "constraints after_A
        \<and> user_actions_row_ok (action_A2\<lparr>verified := True\<rparr>)
        \<and> stored_event after_A (action_id (action_A2\<lparr>verified := True\<rparr>)) = None
        \<and> has_user after_A (ua_user_id (action_A2\<lparr>verified := True\<rparr>))
        \<and> actor_total after_A (ua_user_id (action_A2\<lparr>verified := True\<rparr>))
            + emissions_saved_lbs (action_A2\<lparr>verified := True\<rparr>) < 10 ^ 16
        \<and> actor_count after_A (ua_user_id (action_A2\<lparr>verified := True\<rparr>)) + 1 < 2 ^ 31
        \<and> total_lbs_saved (global_emissions after_A)
            + emissions_saved_lbs (action_A2\<lparr>verified := True\<rparr>) < 10 ^ 20
        \<and> total_actions (global_emissions after_A) + 1 < 2 ^ 63"
    using scenario_constraints(3)
    by (simp add: action_A2_def user_actions_row_ok_def numeric_fits_def has_user_def
        stored_event_def actor_total_def actor_count_def actor_rollup_def stats_A_def
        after_A_def action_A_def alice_def bob_def)
  obtain x where x: "insert_user_actions 2 (action_A\<lparr>verified := True\<rparr>)
                       (migrated [alice, bob] 0) = Inr x"
      "credited (ua_user_id (action_A\<lparr>verified := True\<rparr>))
         (emissions_saved_lbs (action_A\<lparr>verified := True\<rparr>)) (migrated [alice, bob] 0) x"
    using insert_verified_credited_once [OF v(1), of 2 "migrated [alice, bob] 0" x 7,
        THEN conjunct2] pre1
    by blast
  obtain y where y: "insert_user_actions 6 (action_A2\<lparr>verified := True\<rparr>) after_A = Inr y"
      "credited (ua_user_id (action_A2\<lparr>verified := True\<rparr>))
         (emissions_saved_lbs (action_A2\<lparr>verified := True\<rparr>)) after_A y"
      "\<exists>d2. markVerified 7 (action_id (action_A2\<lparr>verified := True\<rparr>)) y = Inr d2
            \<and> rollups d2 = rollups y"
    using insert_verified_credited_once [OF v(2), of 6 after_A y 7, THEN conjunct2] pre2
    by blast
  have first: "credited 1 50000 (migrated [alice, bob] 0) after_A"
    using x ins by (simp add: action_A_def)
  have second: "insert_user_actions 6 (action_A2\<lparr>verified := True\<rparr>) after_A = Inr after_A2
                \<and> credited 1 20000 after_A after_A2"
    using y insert_A2_runs by (simp add: action_A2_def)
  show ?thesis
    using ins first second rollups_after again by simp
qed

text \<open>
  No verification writes \<open>verified_at\<close>: the column is, row by row, what it was.
\<close>

lemma verified_at_untouched:
  assumes "constraints d" and "markVerified now e d = Inr d'"
  shows "map verified_at (user_actions d') = map verified_at (user_actions d)"
proof -
  from assms(2) obtain ev where ev: "stored_event d e = Some ev"
    by (auto simp add: markVerified_def stored_event_def split: option.splits)
  have "map verified_at (map (\<lambda>a. if action_id a = e then ev\<lparr>verified := True\<rparr> else a) xs)
          = map verified_at xs"
    if "\<forall>a \<in> set xs. action_id a = e \<longrightarrow> a = ev" for xs
    using that by (induction xs) auto
  moreover have "\<forall>a \<in> set (user_actions d). action_id a = e \<longrightarrow> a = ev"
  proof (intro ballI impI)
    fix a
    assume a: "a \<in> set (user_actions d)" "action_id a = e"
    have "ev \<in> set (user_actions d)" "action_id ev = e"
      using ev by (auto simp add: stored_event_def find_Some_iff)
    moreover have "inj_on action_id (set (user_actions d))"
      using assms(1) by (simp add: constraints_def distinct_map)
    ultimately show "a = ev" using a by (auto dest: inj_onD)
  qed
  ultimately show ?thesis
    unfolding markVerified_rows [OF ev assms(2)] by blast
qed

text \<open>
  \<^bold>\<open>C8\<close> fails on the code. The trigger function assigns \<^verbatim>\<open>NEW.verified_at := NOW()\<close>, but
  it runs in \<^verbatim>\<open>AFTER\<close> triggers, whose returned row is dropped: a verification never
  writes \<open>verified_at\<close>. After the submission and the verification of the event of A, the
  stored event is verified and its \<open>verified_at\<close> is still null.
\<close>

theorem verified_at_stays_null:
  "map (\<lambda>a. (action_id a, verified a, verified_at a))
     (user_actions (run [Append 1 action_A, MarkVerified 2 1] (migrated [alice, bob] 0)))
   = [(1, True, None)]"
  by (simp add: engine_defs scenario_defs)


section \<open>The leaderboard of the engine\<close>

lemma precedes_order_key: "order_key scan a \<le> order_key scan b \<Longrightarrow> precedes a b"
  by (auto simp add: precedes_def order_key_def)

lemma ordered_users_sorted: "sorted_wrt precedes (ordered_users scan d)"
proof -
  have "sorted (map (order_key scan) (ordered_users scan d))"
    unfolding ordered_users_def by (rule sorted_sort_key)
  then have "sorted_wrt (\<lambda>a b. order_key scan a \<le> order_key scan b) (ordered_users scan d)"
    by (simp add: sorted_map)
  then show ?thesis
    by (rule sorted_wrt_mono_rel [rotated]) (rule precedes_order_key)
qed

lemma ranked_users_eligible: "r \<in> set (ranked_users d) \<Longrightarrow> ru_total_emissions_lbs r > 0"
  by (auto simp add: ranked_users_def split: option.splits if_splits)

lemma ordered_users_eligible:
  "r \<in> set (ordered_users scan d) \<Longrightarrow> ru_total_emissions_lbs r > 0"
  by (simp add: ordered_users_def ranked_users_eligible)

lemma numbered_second:
  "map (\<lambda>p. g (snd p)) (List.enumerate n xs) = map g xs"
  by (induction xs arbitrary: n) simp_all

lemma numbered_first:
  "map (\<lambda>p. g (fst p)) (List.enumerate n xs) = map g [n..<n + length xs]"
  by (induction xs arbitrary: n) (simp_all add: upt_rec)

lemma take_upt_from: "take k [1..<Suc n] = [1..<Suc (min n k)]"
  by (cases "k \<le> n") (simp_all add: min_def)

lemma get_leaderboard_rows:
  assumes "get_leaderboard scan limit_count d = Inr rows"
  shows "map lb_user_id rows = map ru_user_id (take (nat limit_count) (ordered_users scan d))
         \<and> map rank rows = map int [1..<Suc (length rows)]"
proof -
  let ?n = "nat limit_count"
  let ?row = "\<lambda>(i, r). \<lparr>rank = int i, lb_user_id = ru_user_id r, username = ru_username r,
                        lb_total_emissions_lbs = round2 (ru_total_emissions_lbs r),
                        lb_action_count = ru_action_count r,
                        last_update_timestamp = ru_last_update_timestamp r\<rparr>"
  have rows: "rows = take ?n (map ?row (List.enumerate 1 (ordered_users scan d)))"
    using assms by (simp add: get_leaderboard_def split: if_splits)
  have len: "length rows = min (length (ordered_users scan d)) ?n"
    unfolding rows by simp
  have users: "map lb_user_id (map ?row (List.enumerate 1 (ordered_users scan d)))
                 = map ru_user_id (ordered_users scan d)"
    using numbered_second [of ru_user_id 1 "ordered_users scan d"]
    by (simp add: comp_def case_prod_unfold)
  have ranks: "map rank (map ?row (List.enumerate 1 (ordered_users scan d)))
                 = map int [1..<Suc (length (ordered_users scan d))]"
    using numbered_first [of int 1 "ordered_users scan d"]
    by (simp add: comp_def case_prod_unfold)
  have "map lb_user_id rows = map ru_user_id (take ?n (ordered_users scan d))"
    unfolding rows take_map [symmetric] users ..
  moreover have "map rank rows = map int [1..<Suc (length rows)]"
    unfolding len unfolding rows take_map [symmetric] ranks
    by (simp only: take_map take_upt_from)
  ultimately show ?thesis by simp
qed

text \<open>
  \<^verbatim>\<open>get_leaderboard\<close> does what \<^bold>\<open>C5\<close> and \<^bold>\<open>C6\<close> say: its rows are the first
  \<^verbatim>\<open>limit_count\<close> of the eligible actors in the order of the specification, cut after
  the ordering, and they are numbered \<open>1, 2, \<dots>\<close> as returned.
\<close>

lemma get_leaderboard_ordered:
  assumes "get_leaderboard scan limit_count d = Inr rows"
  shows "map lb_user_id rows = map ru_user_id (take (nat limit_count) (ordered_users scan d))
         \<and> sorted_wrt precedes (ordered_users scan d)
         \<and> list_all (\<lambda>r. ru_total_emissions_lbs r > 0) (ordered_users scan d)
         \<and> map rank rows = map int [1..<Suc (length rows)]"
  using get_leaderboard_rows [OF assms] ordered_users_sorted [of scan d]
    ordered_users_eligible [of _ scan d]
  by (simp add: list_all_iff)

text \<open>
  The tie of the specification: A and B both at \<open>10.0\<close> lb, B verified later. No row has
  a \<open>verified_at\<close>, the order falls back on the time of the last update of each rollup,
  and B is first, whatever the executor's own order.
\<close>

lemma tied_session_runs:
  "run tied_session (migrated [alice, bob] 0) =
     \<lparr>users = [alice, bob],
      user_actions = [action_A\<lparr>emissions_saved_lbs := 100000, verified := True\<rparr>,
                      action_B\<lparr>emissions_saved_lbs := 100000, verified := True\<rparr>],
      user_stats = [stats_A\<lparr>total_emissions_lbs := 100000\<rparr>,
                    stats_B\<lparr>total_emissions_lbs := 100000\<rparr>],
      global_emissions = \<lparr>total_lbs_saved = 200000, total_actions = 2, ge_last_updated = 4\<rparr>,
      sync_audit_log = []\<rparr>"
  by (simp add: tied_session_def engine_defs scenario_defs)

lemma tie_broken_by_recency:
  "get_leaderboard scan 100 (run tied_session (migrated [alice, bob] 0)) =
     Inr [\<lparr>rank = 1, lb_user_id = 2, username = ''bob@example.org'',
           lb_total_emissions_lbs = 100000, lb_action_count = 1, last_update_timestamp = 4\<rparr>,
          \<lparr>rank = 2, lb_user_id = 1, username = ''alice'',
           lb_total_emissions_lbs = 100000, lb_action_count = 1, last_update_timestamp = 2\<rparr>]"
  unfolding tied_session_runs
  by (simp add: get_leaderboard_def ordered_users_def ranked_users_def max_verified_at_def
      order_key_def round2_def scenario_defs List.map_filter_def enumerate_eq_zip)


section \<open>The claims about the read adapter\<close>

lemmas reader_defs =
  getLeaderboardEntries_def calculateLeaderboardFromStats_def map_then_sort_def
  summary_stat_def statistics_stat_def from_leaderboard_service_def
  scope_value_matches_def scope_id_matches_def num_or_def
  of_leaderboard_snapshot_def of_leaderboards_def

lemmas store_defs =
  no_rows_def two_actors_def idle_actor_def with_legacy_def summary_of_def legacy_L_def

text \<open>What the fallback does keep: its entries are in descending order of value.\<close>

lemma map_then_sort_descending:
  "sorted (map (\<lambda>e. - le_co2_saved_kg e) (map_then_sort rt p stats))"
  unfolding map_then_sort_def by (rule sorted_sort_key)

text \<open>
  \<^bold>\<open>C5\<close> fails on the fallback of the read adapter. With no leaderboard rows of either
  generation, \<^verbatim>\<open>getLeaderboardEntries\<close> computes the monthly leaderboard from the stats
  table, and an actor who saved nothing this month is listed, with value \<open>0\<close>: at every
  time, and whatever the rounding.
\<close>

theorem fallback_lists_idle_actor:
  "\<forall>rt. map (\<lambda>e. (le_rank e, le_user_id e, le_co2_saved_kg e))
          (getLeaderboardEntries idle_actor rt monthly global None 10)
        = [(1, ''A'', 0)]"
  by (simp add: reader_defs store_defs enumerate_eq_zip)

text \<open>
  \<^bold>\<open>C6\<close> fails on the same fallback. A leads in all (\<open>10\<close> against \<open>5\<close>) and B this month
  (\<open>3\<close> against \<open>1\<close>). The rows get their ranks in the order of the query, by total, and
  are sorted by the monthly value afterwards: the ranks are returned as \<open>2, 1\<close>. With the
  limit 1 the query cuts before that sort: B, first this month, is not returned.
\<close>

theorem fallback_ranks_before_sorting:
  "\<forall>rt. map (\<lambda>e. (le_rank e, le_user_id e, le_co2_saved_kg e))
          (getLeaderboardEntries two_actors rt monthly global None 10)
        = [(2, ''B'', 3), (1, ''A'', 1)]
        \<and> map (\<lambda>e. (le_rank e, le_user_id e, le_co2_saved_kg e))
          (getLeaderboardEntries two_actors rt monthly global None 1)
        = [(1, ''A'', 1)]"
  by (simp add: reader_defs store_defs enumerate_eq_zip)

subsection \<open>The four reads as cascades\<close>

text \<open>The loop of the recomputation, variable by variable.\<close>

lemma foldl_each_action:
  "foldl (each_action rt) t actions =
     \<lparr>totalCo2Kg = foldl (\<lambda>acc a. js_add rt acc (emissionsKg rt a)) (totalCo2Kg t) actions,
      monthCo2Kg = foldl (\<lambda>acc a. js_add rt acc (emissionsKg rt a)) (monthCo2Kg t)
                     (filter (\<lambda>a. since_this_month rt (la_logged_at a)) actions),
      yearCo2Kg = foldl (\<lambda>acc a. js_add rt acc (emissionsKg rt a)) (yearCo2Kg t)
                    (filter (\<lambda>a. since_this_year rt (la_logged_at a)) actions),
      actionCount = actionCount t + of_nat (length actions),
      lastActionDate =
        (if truthy (lastActionDate t) then lastActionDate t
         else case find (\<lambda>a. la_logged_at a \<noteq> []) actions of
                Some a \<Rightarrow> Some (la_logged_at a)
              | None \<Rightarrow> if actions = [] then lastActionDate t else Some [])\<rparr>"
proof (induction actions arbitrary: t)
  case Nil
  show ?case by simp
next
  case (Cons a actions)
  show ?case
    by (simp only: foldl_Cons Cons.IH)
       (simp add: each_action_def add.assoc split: option.splits)
qed

lemma calculateUserStatisticsFromActions_cascade:
  "calculateUserStatisticsFromActions s rt userId =
     first_yield [recomputed_user_statistics (tbl_user_actions s) rt userId] None"
  by (cases "tbl_user_actions s")
     (simp_all add: calculateUserStatisticsFromActions_def recomputed_user_statistics_def
        foldl_each_action kg_sum_def newest_date_def Let_def)

lemma getUserStatistics_cascade:
  "getUserStatistics s rt userId =
     first_yield [current_user_statistics (tbl_user_stats_summary s) userId,
                  prior_user_statistics (tbl_user_statistics s) userId]
       (first_yield [recomputed_user_statistics (tbl_user_actions s) rt userId] None)"
  unfolding calculateUserStatisticsFromActions_cascade [symmetric]
  by (simp add: getUserStatistics_def current_user_statistics_def prior_user_statistics_def
      yield_row_def split: response.splits option.splits)

text \<open>The legacy \<^verbatim>\<open>user_stats\<close> has no part in the actor rollup that is returned.\<close>

lemma getUserStatistics_ignores_user_stats:
  "getUserStatistics (s\<lparr>tbl_user_stats := t\<rparr>) rt userId = getUserStatistics s rt userId"
  unfolding getUserStatistics_cascade by simp

lemma calculateGlobalStatisticsFromExisting_cascade:
  assumes "legacy_global_statistics (tbl_global_emissions s) (tbl_profiles s)
             (tbl_user_actions s) rt \<noteq> Nothing"
  shows "calculateGlobalStatisticsFromExisting s rt =
           first_yield [legacy_global_statistics (tbl_global_emissions s) (tbl_profiles s)
                          (tbl_user_actions s) rt] None"
proof (cases "tbl_global_emissions s = Throws \<or> tbl_profiles s = Throws
              \<or> tbl_user_actions s = Throws")
  case True
  then show ?thesis
    by (auto simp add: calculateGlobalStatisticsFromExisting_def legacy_global_statistics_def
        split: response.splits)
next
  case False
  then obtain total_lbs where row: "tbl_global_emissions s = Data [total_lbs]"
    using assms
    by (auto simp add: legacy_global_statistics_def split: response.splits list.splits)
  show ?thesis
    using False
    by (cases "tbl_profiles s"; cases "tbl_user_actions s")
       (simp_all add: calculateGlobalStatisticsFromExisting_def legacy_global_statistics_def
          row num_or_def)
qed

lemma getGlobalStatistics_cascade:
  assumes "falls_through [current_global_statistics (tbl_global_stats_rollup s),
                          prior_global_statistics (tbl_global_statistics s)] \<longrightarrow>
           legacy_global_statistics (tbl_global_emissions s) (tbl_profiles s)
             (tbl_user_actions s) rt \<noteq> Nothing"
  shows "getGlobalStatistics s rt =
           first_yield [current_global_statistics (tbl_global_stats_rollup s),
                        prior_global_statistics (tbl_global_statistics s)]
             (first_yield [legacy_global_statistics (tbl_global_emissions s) (tbl_profiles s)
                             (tbl_user_actions s) rt] None)"
proof (cases "falls_through [current_global_statistics (tbl_global_stats_rollup s),
                             prior_global_statistics (tbl_global_statistics s)]")
  case True
  with assms have "calculateGlobalStatisticsFromExisting s rt =
      first_yield [legacy_global_statistics (tbl_global_emissions s) (tbl_profiles s)
                     (tbl_user_actions s) rt] None"
    by (simp add: calculateGlobalStatisticsFromExisting_cascade)
  then show ?thesis
    by (simp add: getGlobalStatistics_def current_global_statistics_def
        prior_global_statistics_def yield_row_def split: response.splits option.splits)
next
  case False
  then show ?thesis
    by (simp add: getGlobalStatistics_def current_global_statistics_def
        prior_global_statistics_def yield_row_def split: response.splits option.splits)
qed

lemma from_leaderboard_service_cascade:
  "from_leaderboard_service s rt limit =
     first_yield [legacy_leaderboard (getLeaderboard s) rt limit] []"
  by (simp add: from_leaderboard_service_def legacy_leaderboard_def split: option.splits)

lemma calculateLeaderboardFromStats_cascade:
  assumes "computed_from_summary (tbl_user_stats_summary s) rt p limit = Nothing
           \<and> computed_from_statistics (tbl_user_statistics s) rt p limit = Nothing \<longrightarrow>
           tbl_user_statistics s = Error"
  shows "calculateLeaderboardFromStats s rt p limit =
           first_yield [computed_from_summary (tbl_user_stats_summary s) rt p limit,
                        computed_from_statistics (tbl_user_statistics s) rt p limit,
                        legacy_leaderboard (getLeaderboard s) rt limit] []"
  using assms
  by (cases "tbl_user_stats_summary s"; cases "tbl_user_statistics s")
     (auto simp add: calculateLeaderboardFromStats_def computed_from_summary_def
        computed_from_statistics_def from_leaderboard_service_cascade Let_def
        split: if_splits)

lemma getLeaderboardEntries_cascade:
  assumes "falls_through [current_leaderboard (tbl_leaderboard_snapshots s) p sc scopeId limit,
                          prior_leaderboard (tbl_leaderboards s) p sc scopeId limit]
           \<and> computed_from_summary (tbl_user_stats_summary s) rt p limit = Nothing
           \<and> computed_from_statistics (tbl_user_statistics s) rt p limit = Nothing \<longrightarrow>
           tbl_user_statistics s = Error"
  shows "getLeaderboardEntries s rt p sc scopeId limit =
           first_yield [current_leaderboard (tbl_leaderboard_snapshots s) p sc scopeId limit,
                        prior_leaderboard (tbl_leaderboards s) p sc scopeId limit]
             (first_yield [computed_from_summary (tbl_user_stats_summary s) rt p limit,
                           computed_from_statistics (tbl_user_statistics s) rt p limit,
                           legacy_leaderboard (getLeaderboard s) rt limit] [])"
proof (cases "falls_through [current_leaderboard (tbl_leaderboard_snapshots s) p sc scopeId limit,
                             prior_leaderboard (tbl_leaderboards s) p sc scopeId limit]")
  case True
  with assms have "calculateLeaderboardFromStats s rt p limit =
      first_yield [computed_from_summary (tbl_user_stats_summary s) rt p limit,
                   computed_from_statistics (tbl_user_statistics s) rt p limit,
                   legacy_leaderboard (getLeaderboard s) rt limit] []"
    by (intro calculateLeaderboardFromStats_cascade) simp
  then show ?thesis
    by (simp add: getLeaderboardEntries_def current_leaderboard_def prior_leaderboard_def
        yield_rows_def Let_def split: response.splits)
next
  case False
  then show ?thesis
    by (simp add: getLeaderboardEntries_def current_leaderboard_def prior_leaderboard_def
        yield_rows_def Let_def split: response.splits if_splits)
qed

lemma getRecentActionsFromOldSchema_cascade:
  "getRecentActionsFromOldSchema s rt userId limit =
     first_yield [legacy_events (tbl_user_actions s) rt userId limit] []"
  by (cases "tbl_user_actions s")
     (simp_all add: getRecentActionsFromOldSchema_def legacy_events_def Let_def)

lemma getRecentActionLogs_cascade:
  "getRecentActionLogs s rt userId limit =
     first_yield [current_events (tbl_user_action_events s) userId limit,
                  prior_events (tbl_user_action_logs s) userId limit]
       (first_yield [legacy_events (tbl_user_actions s) rt userId limit] [])"
  unfolding getRecentActionsFromOldSchema_cascade [symmetric]
  by (simp add: getRecentActionLogs_def current_events_def prior_events_def
      yield_rows_def Let_def split: response.splits)

text \<open>
  When the legacy generation has no global row, the total returned is that of \<open>0\<close> lb,
  whatever the events: the global rollup is not recomputed from them.
\<close>

lemma global_total_without_legacy_row:
  "map_option (\<lambda>g. (g_total_co2_saved_kg g, g_total_actions_count g))
     (getGlobalStatistics (no_rows\<lparr>tbl_user_actions := Data [event_of_C]\<rparr>) rt)
   = Some (js_mul rt 0 (js_num rt (453592 / 1000000)), 1)"
  by (simp add: getGlobalStatistics_def calculateGlobalStatisticsFromExisting_def no_rows_def
      num_or_def)

text \<open>
  \<^bold>\<open>C9\<close>, as the code has it. Each of the four reads asks its sources in a fixed order
  and returns what the first of them yields; every source is read from the tables of one
  generation, so that no response has fields of two generations; a request that throws
  hands the read over to the sources that come after the prior generation.

  \<^item> Actor rollup: the current generation, the prior one, then the recomputation from the
    events. Left out: the legacy \<^verbatim>\<open>user_stats\<close> has a row for the actor when the read comes
    to it; the function does not read that table.
  \<^item> Global rollup: the current generation, the prior one, then the legacy one. Left out:
    the legacy generation has no global row when the read comes to it.
  \<^item> Leaderboard: the current generation, the prior one, then the recomputation from the
    stats table of the current generation and from that of the prior one, and last the
    legacy leaderboard. Left out: the prior stats table answers with no row when the read
    comes to it.
  \<^item> Recent events: the current generation, the prior one, then the legacy one, which
    is the Event Store.
\<close>

theorem read_adapter_cascade:
  "((falls_through [current_user_statistics (tbl_user_stats_summary s) userId,
                    prior_user_statistics (tbl_user_statistics s) userId] \<longrightarrow>
     legacy_user_statistics_absent (tbl_user_stats s) userId) \<longrightarrow>
    getUserStatistics s rt userId =
      first_yield [current_user_statistics (tbl_user_stats_summary s) userId,
                   prior_user_statistics (tbl_user_statistics s) userId]
        (first_yield [recomputed_user_statistics (tbl_user_actions s) rt userId] None))
   \<and> ((falls_through [current_global_statistics (tbl_global_stats_rollup s),
                      prior_global_statistics (tbl_global_statistics s)] \<longrightarrow>
       legacy_global_statistics (tbl_global_emissions s) (tbl_profiles s)
         (tbl_user_actions s) rt \<noteq> Nothing) \<longrightarrow>
      getGlobalStatistics s rt =
        first_yield [current_global_statistics (tbl_global_stats_rollup s),
                     prior_global_statistics (tbl_global_statistics s)]
          (first_yield [legacy_global_statistics (tbl_global_emissions s) (tbl_profiles s)
                          (tbl_user_actions s) rt] None))
   \<and> ((falls_through [current_leaderboard (tbl_leaderboard_snapshots s) p sc scopeId limit,
                      prior_leaderboard (tbl_leaderboards s) p sc scopeId limit]
       \<and> computed_from_summary (tbl_user_stats_summary s) rt p limit = Nothing
       \<and> computed_from_statistics (tbl_user_statistics s) rt p limit = Nothing \<longrightarrow>
       tbl_user_statistics s = Error) \<longrightarrow>
      getLeaderboardEntries s rt p sc scopeId limit =
        first_yield [current_leaderboard (tbl_leaderboard_snapshots s) p sc scopeId limit,
                     prior_leaderboard (tbl_leaderboards s) p sc scopeId limit]
          (first_yield [computed_from_summary (tbl_user_stats_summary s) rt p limit,
                        computed_from_statistics (tbl_user_statistics s) rt p limit,
                        legacy_leaderboard (getLeaderboard s) rt limit] []))
   \<and> getRecentActionLogs s rt actor n =
        first_yield [current_events (tbl_user_action_events s) actor n,
                     prior_events (tbl_user_action_logs s) actor n]
          (first_yield [legacy_events (tbl_user_actions s) rt actor n] [])"
proof (intro conjI impI)
  show "getUserStatistics s rt userId =
      first_yield [current_user_statistics (tbl_user_stats_summary s) userId,
                   prior_user_statistics (tbl_user_statistics s) userId]
        (first_yield [recomputed_user_statistics (tbl_user_actions s) rt userId] None)"
    by (rule getUserStatistics_cascade)
next
  assume "falls_through [current_global_statistics (tbl_global_stats_rollup s),
                         prior_global_statistics (tbl_global_statistics s)] \<longrightarrow>
          legacy_global_statistics (tbl_global_emissions s) (tbl_profiles s)
            (tbl_user_actions s) rt \<noteq> Nothing"
  then show "getGlobalStatistics s rt =
        first_yield [current_global_statistics (tbl_global_stats_rollup s),
                     prior_global_statistics (tbl_global_statistics s)]
          (first_yield [legacy_global_statistics (tbl_global_emissions s) (tbl_profiles s)
                          (tbl_user_actions s) rt] None)"
    by (rule getGlobalStatistics_cascade)
next
  assume "falls_through [current_leaderboard (tbl_leaderboard_snapshots s) p sc scopeId limit,
                         prior_leaderboard (tbl_leaderboards s) p sc scopeId limit]
          \<and> computed_from_summary (tbl_user_stats_summary s) rt p limit = Nothing
          \<and> computed_from_statistics (tbl_user_statistics s) rt p limit = Nothing \<longrightarrow>
          tbl_user_statistics s = Error"
  then show "getLeaderboardEntries s rt p sc scopeId limit =
        first_yield [current_leaderboard (tbl_leaderboard_snapshots s) p sc scopeId limit,
                     prior_leaderboard (tbl_leaderboards s) p sc scopeId limit]
          (first_yield [computed_from_summary (tbl_user_stats_summary s) rt p limit,
                        computed_from_statistics (tbl_user_statistics s) rt p limit,
                        legacy_leaderboard (getLeaderboard s) rt limit] [])"
    by (rule getLeaderboardEntries_cascade)
next
  show "getRecentActionLogs s rt actor n =
        first_yield [current_events (tbl_user_action_events s) actor n,
                     prior_events (tbl_user_action_logs s) actor n]
          (first_yield [legacy_events (tbl_user_actions s) rt actor n] [])"
    by (rule getRecentActionLogs_cascade)
qed

text \<open>
  Witness, at every time and whatever the rounding. The actor rollup of A, who has a row
  in both generations, is that of the current one, with none of the prior row's values;
  that of B is read from the prior generation; that of C, who has no rollup, is
  recomputed from her one event. The global rollup of a store with the legacy tables
  only is the legacy one. The leaderboard is computed from the current stats table when
  it has rows, with the legacy leaderboard there; and is the legacy one when neither
  stats table can be read. The recent events of C are read from the prior generation
  when it has a log of hers, and from the Event Store when it has none.
\<close>

theorem read_adapter_cascade_witness:
  "\<forall>rt. getUserStatistics generations rt ''A'' =
            Some (of_user_stats_summary (summary_of ''A'' 10 1))
        \<and> total_co2_saved_kg (of_user_stats_summary (summary_of ''A'' 10 1)) = 10
        \<and> getUserStatistics generations rt ''B'' =
            Some (of_user_statistics (statistics_of ''B'' 4))
        \<and> map_option (\<lambda>u. (total_co2_saved_kg u, total_actions_count u, last_action_date u))
            (getUserStatistics generations rt ''C'')
          = Some (js_add rt 0 (js_mul rt 5 (js_num rt (453592 / 1000000))), 1,
                  Some ''2025-11-10T09:00:00.000Z'')
        \<and> map_option (\<lambda>g. (total_users g, g_total_co2_saved_kg g, g_total_actions_count g))
            (getGlobalStatistics legacy_only rt)
          = Some (2, js_mul rt 100 (js_num rt (453592 / 1000000)), 1)
        \<and> map (\<lambda>e. (le_rank e, le_user_id e, le_co2_saved_kg e))
            (getLeaderboardEntries with_legacy rt all_time global None 10)
          = [(1, ''A'', 10), (2, ''B'', 5)]
        \<and> map (\<lambda>e. (le_rank e, le_user_id e, le_co2_saved_kg e))
            (getLeaderboardEntries unreadable_stats rt all_time global None 10)
          = [(1, ''L'', js_mul rt 20 (js_num rt (453592 / 1000000)))]
        \<and> getRecentActionLogs logged rt (Some ''C'') 10 = [of_user_action_log log_of_C]
        \<and> map (\<lambda>l. (log_id l, log_user_id l, co2_saved_kg l, logged_at l))
            (getRecentActionLogs legacy_only rt (Some ''C'') 10)
          = [(1, ''C'', js_mul rt 5 (js_num rt (453592 / 1000000)),
              ''2025-11-10T09:00:00.000Z'')]"
proof (intro allI conjI)
  fix rt
  show "getUserStatistics generations rt ''A'' =
          Some (of_user_stats_summary (summary_of ''A'' 10 1))"
    using read_adapter_cascade [where s = generations and rt = rt and userId = "''A''",
        THEN conjunct1]
    by (simp add: current_user_statistics_def yield_row_def generations_def no_rows_def
        summary_of_def)
  show "total_co2_saved_kg (of_user_stats_summary (summary_of ''A'' 10 1)) = 10"
    by (simp add: of_user_stats_summary_def summary_of_def num_or_def)
  show "getUserStatistics generations rt ''B'' =
          Some (of_user_statistics (statistics_of ''B'' 4))"
    using read_adapter_cascade [where s = generations and rt = rt and userId = "''B''",
        THEN conjunct1]
    by (simp add: current_user_statistics_def prior_user_statistics_def yield_row_def
        generations_def no_rows_def summary_of_def statistics_of_def)
  show "map_option (\<lambda>u. (total_co2_saved_kg u, total_actions_count u, last_action_date u))
            (getUserStatistics generations rt ''C'')
          = Some (js_add rt 0 (js_mul rt 5 (js_num rt (453592 / 1000000))), 1,
                  Some ''2025-11-10T09:00:00.000Z'')"
    using read_adapter_cascade [where s = generations and rt = rt and userId = "''C''",
        THEN conjunct1]
    by (simp add: current_user_statistics_def prior_user_statistics_def yield_row_def
        legacy_user_statistics_absent_def recomputed_user_statistics_def kg_sum_def
        newest_date_def emissionsKg_def emissionsLbs_def num_or_def
        generations_def no_rows_def summary_of_def statistics_of_def event_of_C_def)
  show "map_option (\<lambda>g. (total_users g, g_total_co2_saved_kg g, g_total_actions_count g))
            (getGlobalStatistics legacy_only rt)
          = Some (2, js_mul rt 100 (js_num rt (453592 / 1000000)), 1)"
    using read_adapter_cascade [where s = legacy_only and rt = rt,
        THEN conjunct2, THEN conjunct1]
    by (simp add: current_global_statistics_def prior_global_statistics_def yield_row_def
        legacy_global_statistics_def legacy_only_def no_rows_def)
  show "map (\<lambda>e. (le_rank e, le_user_id e, le_co2_saved_kg e))
            (getLeaderboardEntries with_legacy rt all_time global None 10)
          = [(1, ''A'', 10), (2, ''B'', 5)]"
    using read_adapter_cascade [where s = with_legacy and rt = rt and p = all_time
        and sc = global and scopeId = None and limit = 10,
        THEN conjunct2, THEN conjunct2, THEN conjunct1]
    by (simp add: current_leaderboard_def prior_leaderboard_def yield_rows_def
        computed_from_summary_def map_then_sort_def summary_stat_def num_or_def
        store_defs enumerate_eq_zip)
  show "map (\<lambda>e. (le_rank e, le_user_id e, le_co2_saved_kg e))
            (getLeaderboardEntries unreadable_stats rt all_time global None 10)
          = [(1, ''L'', js_mul rt 20 (js_num rt (453592 / 1000000)))]"
    using read_adapter_cascade [where s = unreadable_stats and rt = rt and p = all_time
        and sc = global and scopeId = None and limit = 10,
        THEN conjunct2, THEN conjunct2, THEN conjunct1]
    by (simp add: current_leaderboard_def prior_leaderboard_def yield_rows_def
        computed_from_summary_def computed_from_statistics_def legacy_leaderboard_def
        unreadable_stats_def store_defs enumerate_eq_zip)
  show "getRecentActionLogs logged rt (Some ''C'') 10 = [of_user_action_log log_of_C]"
    using read_adapter_cascade [where s = logged and rt = rt and actor = "Some ''C''"
        and n = 10, THEN conjunct2, THEN conjunct2, THEN conjunct2]
    by (simp add: current_events_def prior_events_def yield_rows_def recent_def
        logged_def legacy_only_def no_rows_def log_of_C_def)
  show "map (\<lambda>l. (log_id l, log_user_id l, co2_saved_kg l, logged_at l))
            (getRecentActionLogs legacy_only rt (Some ''C'') 10)
          = [(1, ''C'', js_mul rt 5 (js_num rt (453592 / 1000000)),
              ''2025-11-10T09:00:00.000Z'')]"
    using read_adapter_cascade [where s = legacy_only and rt = rt and actor = "Some ''C''"
        and n = 10, THEN conjunct2, THEN conjunct2, THEN conjunct2]
    by (simp add: current_events_def prior_events_def yield_rows_def recent_def
        legacy_events_def emissionsKg_def emissionsLbs_def num_or_def
        legacy_only_def no_rows_def event_of_C_def enumerate_eq_zip)
qed

text \<open>
  Counterexample to \<^bold>\<open>C9\<close> as stated. No leaderboard rows of the current or the prior
  generation, two actors in the stats table, and a legacy leaderboard with one entry:
  in the order of the claim (current, prior, legacy, recomputation) the legacy entry
  \<open>L\<close> would be returned, whatever the recomputation yields;
  \<^verbatim>\<open>getLeaderboardEntries\<close> returns the leaderboard computed from the stats table and
  never asks the legacy one.
\<close>

theorem leaderboard_recomputed_before_legacy:
  "\<forall>rt. map le_user_id
          (first_yield
             [current_leaderboard (tbl_leaderboard_snapshots with_legacy) all_time global None 10,
              prior_leaderboard (tbl_leaderboards with_legacy) all_time global None 10,
              legacy_leaderboard (getLeaderboard with_legacy) rt 10,
              computed_from_summary (tbl_user_stats_summary with_legacy) rt all_time 10,
              computed_from_statistics (tbl_user_statistics with_legacy) rt all_time 10] [])
          = [''L'']
        \<and> map le_user_id (getLeaderboardEntries with_legacy rt all_time global None 10)
          = [''A'', ''B'']"
  by (simp add: reader_defs store_defs enumerate_eq_zip current_leaderboard_def
      prior_leaderboard_def legacy_leaderboard_def computed_from_summary_def
      computed_from_statistics_def yield_rows_def)

end
